theory Spec2Isabelle
  imports Complex_Main
begin

section \<open>Python values shared by the models\<close>

text \<open>
  The exceptions the modelled functions can raise. \<open>NifError\<close> is the scripts' own fatal
  error (\<open>nif_utils.NifError\<close>); the others are Python's built-in exceptions.
\<close>

datatype error =
    NifError
  | AssertionError
  | AttributeError
  | IndexError
  | KeyError
  | NameError
  | TypeError
  | UnboundLocalError
  | ValueError

section \<open>Bone names (nif\_common.py)\<close>

text \<open>Python's \<open>str.startswith\<close>, \<open>str.endswith\<close> and the slices \<open>s[a:]\<close>, \<open>s[a:-b]\<close>.\<close>

definition startswith :: "string \<Rightarrow> string \<Rightarrow> bool" where
  "startswith name p = (take (length p) name = p)"

definition endswith :: "string \<Rightarrow> string \<Rightarrow> bool" where
  "endswith name s = (length s \<le> length name \<and> drop (length name - length s) name = s)"

definition slice_from :: "string \<Rightarrow> nat \<Rightarrow> string" where
  "slice_from name a = drop a name"

definition slice_from_to_end_minus :: "string \<Rightarrow> nat \<Rightarrow> nat \<Rightarrow> string" where
  \<comment> \<open>\<open>name[a:-b]\<close> for \<open>b > 0\<close>: the stop index is \<open>len(name) - b\<close>, or 0 when that is negative\<close>
  "slice_from_to_end_minus name a b = drop a (take (length name - b) name)"

text \<open>
  Python's \<open>str.replace(old, new)\<close>: every non-overlapping occurrence of \<open>old\<close>, found
  from the left, is replaced; an empty \<open>old\<close> matches before every character and at the end.
\<close>

function replace_str :: "string \<Rightarrow> string \<Rightarrow> string \<Rightarrow> string" where
  "replace_str old new s =
     (if old = [] then new @ concat (map (\<lambda>c. c # new) s)
      else if s = [] then []
      else if take (length old) s = old then new @ replace_str old new (drop (length old) s)
      else hd s # replace_str old new (tl s))"
  by pat_completeness auto
termination
  by (relation "measure (\<lambda>(old, new, s). length s)") auto

declare replace_str.simps [simp del]

definition get_bone_name_for_blender :: "string \<Rightarrow> string" where
  "get_bone_name_for_blender name =
     (if startswith name ''Bip01 L '' then ''Bip01 '' @ slice_from name 8 @ ''.L''
      else if startswith name ''Bip01 R '' then ''Bip01 '' @ slice_from name 8 @ ''.R''
      else if startswith name ''NPC L '' \<and> endswith name '']'' then
        replace_str '']'' ''].L'' (replace_str ''[L'' ''['' (replace_str ''NPC L'' ''NPC'' name))
      else if startswith name ''NPC R '' \<and> endswith name '']'' then
        replace_str '']'' ''].R'' (replace_str ''[R'' ''['' (replace_str ''NPC R'' ''NPC'' name))
      else name)"

definition get_bone_name_for_nif :: "string \<Rightarrow> string" where
  "get_bone_name_for_nif name =
     (if startswith name ''Bip01 '' then
        (if endswith name ''.L'' then ''Bip01 L '' @ slice_from_to_end_minus name 6 2
         else if endswith name ''.R'' then ''Bip01 R '' @ slice_from_to_end_minus name 6 2
         else name)
      else if startswith name ''NPC '' \<and> endswith name ''].L'' then
        replace_str ''].L'' '']'' (replace_str ''['' ''[L'' (replace_str ''NPC '' ''NPC L'' name))
      else if startswith name ''NPC '' \<and> endswith name ''].R'' then
        replace_str ''].R'' '']'' (replace_str ''['' ''[R'' (replace_str ''NPC '' ''NPC R'' name))
      else name)"

section \<open>Cycle mode of a controller (nif\_common.py)\<close>

unbundle bit_operations_syntax

text \<open>
  A Blender F-curve, as far as \<open>get_extend_from_flags\<close> touches it: the list of its
  modifiers (by type). The function returns either the curve or the value of
  \<open>bpy.types.FCurve.extrapolation("CONSTANT")\<close>; its warnings are returned beside it.
\<close>

record fcurve =
  modifiers :: "string list"

datatype extend_value = FCurve fcurve | Extrapolation string

definition get_extend_from_flags :: "fcurve \<Rightarrow> int \<Rightarrow> extend_value \<times> string list" where
  "get_extend_from_flags b_fcurve flags =
     (if flags AND 6 = 4 then (FCurve b_fcurve, [])
      else if flags AND 6 = 0 then
        (FCurve (b_fcurve\<lparr>modifiers := modifiers b_fcurve @ [''CYCLES'']\<rparr>), [])
      else (Extrapolation ''CONSTANT'', [''Unsupported cycle mode in nif, using clamped.'']))"

text \<open>
  The cycle mode a returned value stands for: a curve carrying a \<open>CYCLES\<close> modifier
  repeats, a curve without one and the constant extrapolation clamp (the reading of
  \<open>get_flags_from_extend\<close> in animation\_export.py).
\<close>

datatype cycle_mode = Clamp | Repeat

definition cycle_mode_of :: "extend_value \<Rightarrow> cycle_mode" where
  "cycle_mode_of v =
     (case v of
        FCurve c \<Rightarrow> if ''CYCLES'' \<in> set (modifiers c) then Repeat else Clamp
      | Extrapolation e \<Rightarrow> Clamp)"

section \<open>Flip controller export (animation\_export.py)\<close>

text \<open>
  The scene settings behind \<open>context.scene\<close>, and the exporter object \<open>parent\<close> the helper
  classes are built from, which has a context (\<open>NifCommon.__init__\<close> sets it).
\<close>

record scene_context =
  frame_start :: int
  frame_end :: int
  fps :: int

record exporter =
  exporter_context :: scene_context

text \<open>
  An object of one of the helper classes: the attribute \<open>nif_export\<close>, and the attribute
  \<open>context\<close> (\<open>context_attr\<close>), which is \<open>None\<close> here when the constructor did not set it.
  \<open>ObjectAnimation.__init__\<close> sets both; \<open>TextureAnimation.__init__\<close> sets \<open>nif_export\<close>
  only.
\<close>

record helper =
  nif_export :: exporter
  context_attr :: "scene_context option"

definition ObjectAnimation :: "exporter \<Rightarrow> helper" where
  "ObjectAnimation parent = \<lparr>nif_export = parent, context_attr = Some (exporter_context parent)\<rparr>"

definition TextureAnimation :: "exporter \<Rightarrow> helper" where
  "TextureAnimation parent = \<lparr>nif_export = parent, context_attr = None\<rparr>"

text \<open>
  The fields of the \<open>NiFlipController\<close> block the function fills in. A source texture is
  represented by the line of the flip buffer it was exported from.
\<close>

record flip_controller =
  flip_flags :: int
  frequency :: real
  start_time :: int
  stop_time :: int
  texture_slot :: nat
  sources :: "string list"
  delta :: real

text \<open>
  \<open>export_flip_controller\<close>: the first statement that needs \<open>self.context\<close> is the
  assignment of \<open>flip.start_time\<close>, before any line of the flip buffer is looked at;
  reading an attribute the object does not have raises \<open>AttributeError\<close>.
\<close>

definition export_flip_controller ::
  "helper \<Rightarrow> string list \<Rightarrow> nat \<Rightarrow> error + flip_controller" where
  "export_flip_controller self tlist target_tex =
     (case context_attr self of
        None \<Rightarrow> Inl AttributeError
      | Some c \<Rightarrow>
          (let start = (frame_start c - 1) * fps c;
               stop = (frame_end c - frame_start c) * fps c;
               texs = filter (\<lambda>t. length t \<noteq> 0) tlist;
               count = length texs
           in if count < 2 then Inl NifError
              else Inr \<lparr>flip_flags = 8, frequency = 1, start_time = start, stop_time = stop,
                        texture_slot = target_tex, sources = texs,
                        delta = real_of_int (stop - start) / real count\<rparr>))"

section \<open>Mesh import: vertices and polygons (nif\_import.py)\<close>

type_synonym vec3 = "real \<times> real \<times> real"

text \<open>Python's \<open>int(x)\<close> on a float truncates towards zero.\<close>

definition py_int :: "real \<Rightarrow> int" where
  "py_int x = (if x < 0 then \<lceil>x\<rceil> else \<lfloor>x\<rfloor>)"

definition VERTEX_RESOLUTION :: real where
  "VERTEX_RESOLUTION = 1000"

definition NORMAL_RESOLUTION :: real where
  "NORMAL_RESOLUTION = 100"

text \<open>
  The key \<open>k\<close> of source vertex \<open>i\<close>: six integers when the geometry has normals, three
  otherwise. Reading a normal past the end of \<open>n_norms\<close> raises.
\<close>

definition vertex_key :: "vec3 list \<Rightarrow> nat \<Rightarrow> vec3 \<Rightarrow> error + int list" where
  "vertex_key n_norms i v =
     (case v of (vx, vy, vz) \<Rightarrow>
        if n_norms \<noteq> [] then
          (if i < length n_norms then
             (case n_norms ! i of (nx, ny, nz) \<Rightarrow>
                Inr [py_int (vx * VERTEX_RESOLUTION), py_int (vy * VERTEX_RESOLUTION),
                     py_int (vz * VERTEX_RESOLUTION), py_int (nx * NORMAL_RESOLUTION),
                     py_int (ny * NORMAL_RESOLUTION), py_int (nz * NORMAL_RESOLUTION)])
           else Inl IndexError)
        else Inr [py_int (vx * VERTEX_RESOLUTION), py_int (vy * VERTEX_RESOLUTION),
                  py_int (vz * VERTEX_RESOLUTION)])"

text \<open>
  The state of the vertex loop: the dictionary \<open>n_map\<close> from keys to source indices, the
  list \<open>v_map\<close> from source indices to mesh indices, the next mesh index, and the
  coordinates added to the mesh so far.
\<close>

record vertex_state =
  n_map :: "int list \<rightharpoonup> nat"
  v_map :: "nat list"
  b_v_index :: nat
  added :: "vec3 list"

text \<open>
  One pass of the body of \<open>for i, v in enumerate(n_verts)\<close>. The test \<open>if not n_map_k\<close>
  takes the first branch when the lookup gave \<open>None\<close> and also when it gave the index 0.
\<close>

definition vertex_step ::
  "bool \<Rightarrow> vec3 list \<Rightarrow> (vec3 \<Rightarrow> vec3) \<Rightarrow> nat \<Rightarrow> vec3 \<Rightarrow> vertex_state \<Rightarrow> error + vertex_state" where
  "vertex_step combine_vertices n_norms transform i v st =
     (case vertex_key n_norms i v of
        Inl e \<Rightarrow> Inl e
      | Inr k \<Rightarrow>
          (let n_map_k = (if \<not> combine_vertices then None else n_map st k) in
           if n_map_k = None \<or> n_map_k = Some 0 then
             Inr (st\<lparr>n_map := (n_map st)(k \<mapsto> i),
                     v_map := (v_map st)[i := b_v_index st],
                     b_v_index := b_v_index st + 1,
                     added := added st @ [transform v]\<rparr>)
           else
             (let j = the n_map_k in
              if j < length (v_map st) then Inr (st\<lparr>v_map := (v_map st)[i := v_map st ! j]\<rparr>)
              else Inl IndexError)))"

fun vertex_loop ::
  "bool \<Rightarrow> vec3 list \<Rightarrow> (vec3 \<Rightarrow> vec3) \<Rightarrow> (nat \<times> vec3) list \<Rightarrow> vertex_state \<Rightarrow> error + vertex_state" where
  "vertex_loop combine_vertices n_norms transform [] st = Inr st"
| "vertex_loop combine_vertices n_norms transform ((i, v) # rest) st =
     (case vertex_step combine_vertices n_norms transform i v st of
        Inl e \<Rightarrow> Inl e
      | Inr st' \<Rightarrow> vertex_loop combine_vertices n_norms transform rest st')"

text \<open>
  The vertex part of \<open>import_mesh\<close>: \<open>n_vertices_before\<close> is \<open>len(b_mesh.vertices)\<close> on
  entry, \<open>transform\<close> the map applied to a vertex before it is stored (the identity when
  \<open>applytransform\<close> is off).
\<close>

definition import_mesh_vertices ::
  "bool \<Rightarrow> vec3 list \<Rightarrow> (vec3 \<Rightarrow> vec3) \<Rightarrow> nat \<Rightarrow> vec3 list \<Rightarrow> error + vertex_state" where
  "import_mesh_vertices combine_vertices n_norms transform n_vertices_before n_verts =
     vertex_loop combine_vertices n_norms transform (enumerate 0 n_verts)
       \<lparr>n_map = Map.empty, v_map = [0..<length n_verts], b_v_index = n_vertices_before,
        added = []\<rparr>"

text \<open>
  The polygon loop. \<open>f_verts = [v_map[vert_index] for vert_index in f]\<close> raises on an
  index past the end of \<open>v_map\<close>.
\<close>

fun remap_face :: "nat list \<Rightarrow> nat list \<Rightarrow> error + nat list" where
  "remap_face vmap [] = Inr []"
| "remap_face vmap (vert_index # f) =
     (if vert_index < length vmap then
        (case remap_face vmap f of
           Inl e \<Rightarrow> Inl e
         | Inr f_verts \<Rightarrow> Inr (vmap ! vert_index # f_verts))
      else Inl IndexError)"

record polygon_state =
  f_map :: "nat option list"
  unique_faces :: "nat list list"
  tri_point_list :: "nat list"
  b_f_index :: nat
  num_new_faces :: nat

definition polygon_step :: "nat list \<Rightarrow> nat \<Rightarrow> nat list \<Rightarrow> polygon_state \<Rightarrow> error + polygon_state" where
  "polygon_step vmap i f st =
     (case remap_face vmap f of
        Inl e \<Rightarrow> Inl e
      | Inr f_verts \<Rightarrow>
          if f_verts \<in> set (unique_faces st) then Inr st
          else Inr (st\<lparr>unique_faces := unique_faces st @ [f_verts],
                       f_map := (f_map st)[i := Some (b_f_index st)],
                       tri_point_list := tri_point_list st @ [length f],
                       b_f_index := b_f_index st + 1,
                       num_new_faces := num_new_faces st + 1\<rparr>))"

fun polygon_loop :: "nat list \<Rightarrow> (nat \<times> nat list) list \<Rightarrow> polygon_state \<Rightarrow> error + polygon_state" where
  "polygon_loop vmap [] st = Inr st"
| "polygon_loop vmap ((i, f) # rest) st =
     (case polygon_step vmap i f st of
        Inl e \<Rightarrow> Inl e
      | Inr st' \<Rightarrow> polygon_loop vmap rest st')"

text \<open>
  The mesh, as far as the polygon part writes it: a polygon is its \<open>(loop_start,
  loop_total)\<close>, a loop its \<open>vertex_index\<close>. \<open>polygons.add(n)\<close> and \<open>loops.add(n)\<close> append
  \<open>n\<close> elements whose fields are 0.
\<close>

record b_mesh =
  mesh_polygons :: "(nat \<times> nat) list"
  mesh_loops :: "nat list"

text \<open>
  The \<open>while\<close> loop that writes the vertex indices of one polygon into the loops from
  \<open>bl_index\<close> on; a loop index past the end of \<open>b_mesh.loops\<close> raises.
\<close>

fun write_loops :: "nat list \<Rightarrow> nat \<Rightarrow> nat list \<Rightarrow> error + nat list" where
  "write_loops [] bl_index ls = Inr ls"
| "write_loops (p # lp_points) bl_index ls =
     (if bl_index < length ls then write_loops lp_points (bl_index + 1) (ls[bl_index := p])
      else Inl IndexError)"

text \<open>
  The loop \<open>for i in range(len(unique_faces))\<close> (lines 1196 to 1206), over the list of
  its indices: it reads \<open>f_map[i]\<close> and, with \<open>j = f_map[i] - bf2_index\<close>, \<open>ls_list[j]\<close>,
  \<open>unique_faces[j]\<close> and \<open>poly_gens[j]\<close>. Its state is the mesh and \<open>bl_index\<close>.
\<close>

fun write_polygons ::
  "nat list \<Rightarrow> nat list list \<Rightarrow> nat \<Rightarrow> nat list \<Rightarrow> polygon_state \<Rightarrow> nat list \<Rightarrow>
   b_mesh \<times> nat \<Rightarrow> error + (b_mesh \<times> nat)" where
  "write_polygons vmap poly_gens bf2_index ls_list st [] (mesh, bl_index) = Inr (mesh, bl_index)"
| "write_polygons vmap poly_gens bf2_index ls_list st (i # rest) (mesh, bl_index) =
     (if i < length (f_map st) then
        (case f_map st ! i of
           None \<Rightarrow> write_polygons vmap poly_gens bf2_index ls_list st rest (mesh, bl_index)
         | Some fi \<Rightarrow>
             (let j = fi - bf2_index in
              if fi < length (mesh_polygons mesh) \<and> j < length ls_list \<and>
                 j < length (unique_faces st) \<and> j < length poly_gens then
                (case remap_face vmap (poly_gens ! j) of
                   Inl e \<Rightarrow> Inl e
                 | Inr lp_points \<Rightarrow>
                     (case write_loops lp_points bl_index (mesh_loops mesh) of
                        Inl e \<Rightarrow> Inl e
                      | Inr ls \<Rightarrow>
                          write_polygons vmap poly_gens bf2_index ls_list st rest
                            (\<lparr>mesh_polygons =
                                 (mesh_polygons mesh)
                                   [fi := (ls_list ! j, length (unique_faces st ! j))],
                               mesh_loops = ls\<rparr>,
                             bl_index + length (poly_gens ! j))))
              else Inl IndexError))
      else Inl IndexError)"

text \<open>
  The polygon part of \<open>import_mesh\<close> (lines 1172 to 1211). \<open>poly_count\<close> polygons and three
  loops for each are added to the mesh before anything else. The first loop keeps the
  books: a source polygon \<open>i\<close> is kept when \<open>f_map[i]\<close> is set, and \<open>num_new_faces\<close> is the
  number the debug message reports. \<open>ls_list\<close> is assigned inside that loop only, for a
  polygon that is kept, so with no polygon at all the name is unbound when line 1194 reads
  it; \<open>range\<close> refuses a step of 0. The result is the mesh and the books.
\<close>

definition import_mesh_polygons ::
  "nat list \<Rightarrow> b_mesh \<Rightarrow> nat list list \<Rightarrow> error + (b_mesh \<times> polygon_state)" where
  "import_mesh_polygons vmap mesh poly_gens =
     (let bf2_index = length (mesh_polygons mesh);
          bl_index = length (mesh_loops mesh);
          poly_count = length poly_gens;
          mesh1 = \<lparr>mesh_polygons = mesh_polygons mesh @ replicate poly_count (0, 0),
                   mesh_loops = mesh_loops mesh @ replicate (poly_count * 3) 0\<rparr>
      in case polygon_loop vmap (enumerate 0 poly_gens)
                \<lparr>f_map = replicate poly_count None, unique_faces = [], tri_point_list = [],
                 b_f_index = bf2_index, num_new_faces = 0\<rparr> of
           Inl e \<Rightarrow> Inl e
         | Inr st \<Rightarrow>
             if num_new_faces st = 0 then Inl UnboundLocalError
             else
               (let step = tri_point_list st ! 0 in
                if step = 0 then Inl ValueError
                else
                  (let ls_list = map (\<lambda>k. k * step + bl_index) [0..<num_new_faces st]
                   in case write_polygons vmap poly_gens bf2_index ls_list st
                             [0..<length (unique_faces st)] (mesh1, bl_index) of
                        Inl e \<Rightarrow> Inl e
                      | Inr (mesh2, bl_index') \<Rightarrow> Inr (mesh2, st))))"

text \<open>The remapped tuple of a polygon whose indices are all in range.\<close>

definition remapped :: "nat list \<Rightarrow> nat list \<Rightarrow> nat list" where
  "remapped vmap f = map (\<lambda>vert_index. vmap ! vert_index) f"


section \<open>Keyframe export (animation\_export.py)\<close>

text \<open>
  A rotation sample is a \<open>mathutils.Euler\<close> or a \<open>mathutils.Quaternion\<close>. Both have the
  attributes \<open>x\<close>, \<open>y\<close>, \<open>z\<close>; only the quaternion has \<open>w\<close>.
\<close>

datatype rot_value = Euler real real real | Quaternion real real real real

fun rot_x :: "rot_value \<Rightarrow> real" where
  "rot_x (Euler x y z) = x"
| "rot_x (Quaternion w x y z) = x"

fun rot_y :: "rot_value \<Rightarrow> real" where
  "rot_y (Euler x y z) = y"
| "rot_y (Quaternion w x y z) = y"

fun rot_z :: "rot_value \<Rightarrow> real" where
  "rot_z (Euler x y z) = z"
| "rot_z (Quaternion w x y z) = z"

fun rot_w :: "rot_value \<Rightarrow> error + real" where
  "rot_w (Euler x y z) = Inl AttributeError"
| "rot_w (Quaternion w x y z) = Inr w"

fun is_euler :: "rot_value \<Rightarrow> bool" where
  "is_euler (Euler x y z) = True"
| "is_euler (Quaternion w x y z) = False"

text \<open>
  The blocks written: quaternions are stored as \<open>(w, x, y, z)\<close>, a key as \<open>(time, value)\<close>.
  \<open>kf_data\<close> is the \<open>NiKeyframeData\<close> / \<open>NiTransformData\<close> block, \<open>interpolator\<close> the
  \<open>NiTransformInterpolator\<close> with its default pose, \<open>controller\<close> the controller with the
  blocks hanging from it.
\<close>

type_synonym quat = "real \<times> real \<times> real \<times> real"

datatype key_type = LINEAR | XYZ_ROTATION

record kf_data =
  rotation_type :: key_type
  num_rotation_keys :: nat
  xyz_rotations :: "(real \<times> real) list \<times> (real \<times> real) list \<times> (real \<times> real) list"
  quaternion_keys :: "(real \<times> quat) list"
  kf_translations :: "(real \<times> vec3) list"
  kf_scales :: "(real \<times> real) list"

record interpolator =
  translation :: vec3
  rotation :: quat
  scale :: real
  data :: "kf_data option"

record controller =
  kfc_flags :: int
  kfc_start_time :: real
  kfc_stop_time :: real
  kfc_data :: "kf_data option"
  kfc_interpolator :: "interpolator option"

definition VERSION_10_2_0_0 :: int where
  \<comment> \<open>\<open>0x0A020000\<close>\<close>
  "VERSION_10_2_0_0 = 167903232"

definition key_time :: "real \<Rightarrow> real \<Rightarrow> real" where
  "key_time rate frame = (frame - 1) * rate"

definition PI_LITERAL :: real where
  "PI_LITERAL = 3.14159265358979323846"

text \<open>
  The quaternion keys of the data block; reading \<open>.w\<close> of an Euler sample raises.
\<close>

fun quaternion_key_list :: "real \<Rightarrow> (real \<times> rot_value) list \<Rightarrow> error + (real \<times> quat) list" where
  "quaternion_key_list rate [] = Inr []"
| "quaternion_key_list rate ((frame, rot) # rest) =
     (case rot_w rot of
        Inl e \<Rightarrow> Inl e
      | Inr w \<Rightarrow>
          (case quaternion_key_list rate rest of
             Inl e \<Rightarrow> Inl e
           | Inr keys \<Rightarrow> Inr ((key_time rate frame, (w, rot_x rot, rot_y rot, rot_z rot)) # keys)))"

text \<open>
  The data block (lines 362 to 436). A curve is a dictionary from frames to samples, given
  as the list of its items in insertion order; \<open>sort_key fst\<close> visits it in the order of
  \<open>frames.sort()\<close>.
\<close>

definition keyframe_data ::
  "real \<Rightarrow> (real \<times> rot_value) list \<Rightarrow> (real \<times> vec3) list \<Rightarrow> (real \<times> real) list \<Rightarrow> error + kf_data" where
  "keyframe_data rate rot_curve trans_curve scale_curve =
     (let rots = sort_key fst rot_curve;
          trans_keys = map (\<lambda>(frame, v). (key_time rate frame, v)) (sort_key fst trans_curve);
          scale_keys = map (\<lambda>(frame, v). (key_time rate frame, v)) (sort_key fst scale_curve)
      in if rots \<noteq> [] \<and> is_euler (snd (hd rot_curve)) then
           Inr \<lparr>rotation_type = XYZ_ROTATION, num_rotation_keys = 1,
                xyz_rotations =
                  (map (\<lambda>(frame, r). (key_time rate frame, rot_x r * PI_LITERAL / 180)) rots,
                   map (\<lambda>(frame, r). (key_time rate frame, rot_y r * PI_LITERAL / 180)) rots,
                   map (\<lambda>(frame, r). (key_time rate frame, rot_z r * PI_LITERAL / 180)) rots),
                quaternion_keys = [], kf_translations = trans_keys, kf_scales = scale_keys\<rparr>
         else
           (case quaternion_key_list rate rots of
              Inl e \<Rightarrow> Inl e
            | Inr keys \<Rightarrow>
                Inr \<lparr>rotation_type = LINEAR, num_rotation_keys = length rots,
                     xyz_rotations = ([], [], []),
                     quaternion_keys = keys, kf_translations = trans_keys, kf_scales = scale_keys\<rparr>))"

text \<open>
  The real export (lines 337 to 369, then the data block): the three composed curves are
  \<open>rot_curve\<close>, \<open>trans_curve\<close> and \<open>scale_curve\<close>; \<open>to_quat\<close> is the library's conversion of
  an Euler sample. With at most one key in each curve and a version from \<open>0x0A020000\<close> on,
  the samples go into the interpolator and no data block is made.
\<close>

definition write_keyframes ::
  "int \<Rightarrow> real \<Rightarrow> (real \<Rightarrow> real \<Rightarrow> real \<Rightarrow> quat) \<Rightarrow> controller \<Rightarrow>
   (real \<times> rot_value) list \<Rightarrow> (real \<times> vec3) list \<Rightarrow> (real \<times> real) list \<Rightarrow>
   error + controller option" where
  "write_keyframes version rate to_quat kfc rot_curve trans_curve scale_curve =
     (if max (length rot_curve) (max (length trans_curve) (length scale_curve)) \<le> 1
         \<and> version \<ge> VERSION_10_2_0_0 then
        (case kfc_interpolator kfc of
           None \<Rightarrow> Inl NameError
         | Some i \<Rightarrow>
             (let i1 = (if trans_curve \<noteq> [] then i\<lparr>translation := snd (hd trans_curve)\<rparr> else i);
                  i2 = (if rot_curve \<noteq> [] then
                          i1\<lparr>rotation :=
                               (case snd (hd rot_curve) of
                                  Euler x y z \<Rightarrow> to_quat x y z
                                | Quaternion w x y z \<Rightarrow> (w, x, y, z))\<rparr>
                        else i1)
              in Inr (Some (kfc\<lparr>kfc_interpolator := Some (i2\<lparr>scale := 1\<rparr>)\<rparr>))))
      else
        (case keyframe_data rate rot_curve trans_curve scale_curve of
           Inl e \<Rightarrow> Inl e
         | Inr kfd \<Rightarrow>
             if version < VERSION_10_2_0_0 then Inr (Some (kfc\<lparr>kfc_data := Some kfd\<rparr>))
             else
               (case kfc_interpolator kfc of
                  None \<Rightarrow> Inl NameError
                | Some i \<Rightarrow> Inr (Some (kfc\<lparr>kfc_interpolator := Some (i\<lparr>data := Some kfd\<rparr>)\<rparr>)))))"

text \<open>
  An action as \<open>export_keyframes\<close> reads it before it composes anything: the list of its
  curves, each with its extend type and its bezier points \<open>(frame, value)\<close>; an extend type
  is an extrapolation with a modifier. An action without curves is false in \<open>if b_action\<close>.
\<close>

record extend_type =
  extrapolation :: string
  modifier :: string

record ipo_curve =
  channel :: string
  curve_extend :: extend_type
  bezierPoints :: "(real \<times> real) list"

definition get_flags_from_extend :: "extend_type \<Rightarrow> int" where
  "get_flags_from_extend e =
     (if extrapolation e = ''CONSTANT'' \<and> modifier e \<noteq> ''CYCLES'' then 4
      else if extrapolation e = ''CONSTANT'' \<and> modifier e = ''CYCLES'' then 0
      else 4)"

text \<open>
  The loop over the curves of the action (lines 156 to 170): the first curve gives the
  extend type, and \<open>min\<close> and \<open>max\<close> over the frames of a curve without points raise.
\<close>

fun action_frames ::
  "ipo_curve list \<Rightarrow> extend_type option \<times> real \<times> real \<Rightarrow> error + (extend_type option \<times> real \<times> real)" where
  "action_frames [] acc = Inr acc"
| "action_frames (curve # rest) (e, start_frame, stop_frame) =
     (if bezierPoints curve = [] then Inl ValueError
      else
        action_frames rest
          (if e = None then Some (curve_extend curve) else e,
           min start_frame (Min (set (map fst (bezierPoints curve)))),
           max stop_frame (Max (set (map fst (bezierPoints curve))))))"

text \<open>
  \<open>export_keyframes\<close>, called with the default \<open>bind_matrix\<close> and \<open>extra_mat_inv\<close>.
  \<open>animation\<close> is the export option, \<open>scene\<close> the scene of \<open>self.context\<close> (which
  \<open>AnimationHelper.__init__\<close> sets), \<open>cyclic\<close> the library's value
  \<open>FCurve.ExtendTypes.CYCLIC\<close>, \<open>parent_is_node\<close> the outcome of
  \<open>isinstance(parent_block, NifFormat.NiNode)\<close>, and \<open>parent\<close> the parent block's \<open>(scale,
  quaternion, translation)\<close>. The result is \<open>None\<close> when the function returns before
  it creates a controller. With an action that is not \<open>None\<close>, the function arrives at
  \<open>assert(Ipo.PO_SCALEX == Ipo.OB_SCALEX)\<close> (line 224) before it composes a curve, and the
  name \<open>Ipo\<close> is bound nowhere in the module; with \<open>None\<close> the three curves are empty.
\<close>

definition export_keyframes ::
  "string \<Rightarrow> int \<Rightarrow> scene_context \<Rightarrow> extend_type \<Rightarrow> (real \<Rightarrow> real \<Rightarrow> real \<Rightarrow> quat) \<Rightarrow>
   ipo_curve list option \<Rightarrow> string \<Rightarrow> bool \<Rightarrow> real \<times> quat \<times> vec3 \<Rightarrow>
   error + controller option" where
  "export_keyframes animation version scene cyclic to_quat b_action space parent_is_node parent =
     (if animation = ''GEOM_NIF'' \<and> version < VERSION_10_2_0_0 then Inr None
      else if space \<noteq> ''localspace'' then Inl AssertionError
      else if \<not> parent_is_node then Inl AssertionError
      else
        (let kfi = (if version < VERSION_10_2_0_0 then None
                    else (case parent of (s, q, t) \<Rightarrow>
                            Some \<lparr>translation = t, rotation = q, scale = s, data = None\<rparr>));
             dummy = Inr (Some cyclic, real_of_int (frame_start scene), real_of_int (frame_end scene))
         in case (case b_action of
                    None \<Rightarrow> dummy
                  | Some curves \<Rightarrow>
                      if curves \<noteq> [] then action_frames curves (None, 1000000, - 1000000)
                      else dummy) of
              Inl e \<Rightarrow> Inl e
            | Inr (e, start_frame, stop_frame) \<Rightarrow>
                (let rate = real_of_int (fps scene);
                     kfc = \<lparr>kfc_flags = 8 OR (case e of None \<Rightarrow> 4 | Some x \<Rightarrow> get_flags_from_extend x),
                            kfc_start_time = (start_frame - 1) * rate,
                            kfc_stop_time = (stop_frame - 1) * rate,
                            kfc_data = None, kfc_interpolator = kfi\<rparr>
                 in if animation = ''GEOM_NIF'' then Inr (Some kfc)
                    else
                      (case b_action of
                         Some curves \<Rightarrow> Inl NameError
                       | None \<Rightarrow> write_keyframes version rate to_quat kfc [] [] []))))"

section \<open>Completing the bone tree (armature\_import.py)\<close>

text \<open>
  Blocks are identified by numbers; \<open>parent\<close> gives a block's \<open>_parent\<close> (\<open>None\<close> at the
  top of the tree), and \<open>dict_armatures\<close> maps a skeleton root to the list of blocks marked
  as its bones.
\<close>

type_synonym node = nat

type_synonym armatures = "node \<rightharpoonup> node list"

text \<open>
  \<open>complete_bone_tree\<close>. A parent that is \<open>None\<close> is appended to the list and the recursive
  call then fails on \<open>None._parent\<close>. The function has no bound on its recursion but the
  interpreter's stack: a call that recurses for ever has the value \<open>None\<close> here.
\<close>

partial_function (option) complete_bone_tree ::
  "(node \<Rightarrow> node option) \<Rightarrow> armatures \<Rightarrow> node \<Rightarrow> node \<Rightarrow> (error + armatures) option" where
  "complete_bone_tree parent dict_armatures bone skelroot =
     (case dict_armatures skelroot of
        None \<Rightarrow> Some (Inl AssertionError)
      | Some bones \<Rightarrow>
          if bone \<notin> set bones then Some (Inl AssertionError)
          else
            (case parent bone of
               None \<Rightarrow> Some (Inl AttributeError)
             | Some boneparent \<Rightarrow>
                 if boneparent \<noteq> skelroot then
                   complete_bone_tree parent
                     (if boneparent \<notin> set bones then dict_armatures(skelroot \<mapsto> bones @ [boneparent])
                      else dict_armatures)
                     boneparent skelroot
                 else Some (Inr dict_armatures)))"

text \<open>
  The loop of \<open>mark_armatures_bones\<close> over the bones of a skin instance (lines 318 to
  332): an entry of \<open>skininst.bones\<close> can be \<open>None\<close> and is then skipped.
\<close>

fun mark_skin_bones ::
  "(node \<Rightarrow> node option) \<Rightarrow> armatures \<Rightarrow> node \<Rightarrow> node option list \<Rightarrow> (error + armatures) option" where
  "mark_skin_bones parent dict_armatures skelroot [] = Some (Inr dict_armatures)"
| "mark_skin_bones parent dict_armatures skelroot (boneBlock # rest) =
     (case boneBlock of
        None \<Rightarrow> mark_skin_bones parent dict_armatures skelroot rest
      | Some b \<Rightarrow>
          (case dict_armatures skelroot of
             None \<Rightarrow> Some (Inl KeyError)
           | Some bones \<Rightarrow>
               (case complete_bone_tree parent
                       (if b \<notin> set bones then dict_armatures(skelroot \<mapsto> bones @ [b])
                        else dict_armatures)
                       b skelroot of
                  None \<Rightarrow> None
                | Some (Inl e) \<Rightarrow> Some (Inl e)
                | Some (Inr d) \<Rightarrow> mark_skin_bones parent d skelroot rest)))"

text \<open>
  What \<open>mark_armatures_bones\<close> does with a skinned geometry block (lines 298 to 332):
  \<open>skeleton\<close> is the import option, \<open>skelroot\<close> the skin instance's skeleton root,
  \<open>skin_bones\<close> its bone list. The marking of extra nodes that follows is not modelled.
\<close>

definition mark_skin_instance ::
  "string \<Rightarrow> (node \<Rightarrow> node option) \<Rightarrow> armatures \<Rightarrow> node \<Rightarrow> node option list \<Rightarrow>
   (error + armatures) option" where
  "mark_skin_instance skeleton parent dict_armatures skelroot skin_bones =
     (if skeleton = ''EVERYTHING'' then
        mark_skin_bones parent
          (if dict_armatures skelroot = None then dict_armatures(skelroot \<mapsto> []) else dict_armatures)
          skelroot skin_bones
      else if skeleton = ''GEOMETRY_ONLY'' \<and> dict_armatures skelroot = None then Some (Inl NifError)
      else mark_skin_bones parent dict_armatures skelroot skin_bones)"

text \<open>The \<open>k\<close>-th ancestor of a block: itself for 0, then parent by parent.\<close>

fun nth_parent :: "(node \<Rightarrow> node option) \<Rightarrow> node \<Rightarrow> nat \<Rightarrow> node option" where
  "nth_parent parent b 0 = Some b"
| "nth_parent parent b (Suc k) =
     (case parent b of None \<Rightarrow> None | Some p \<Rightarrow> nth_parent parent p k)"

text \<open>
  The chain of scenario D: block 0 is A (the skeleton root), block 1 is B, block 2 is C;
  and a chain with a cycle: blocks 1 and 2 are each other's parent.
\<close>

definition chain_ABC :: "node \<Rightarrow> node option" where
  "chain_ABC b = (if b = 2 then Some 1 else if b = 1 then Some 0 else None)"

definition cyclic_chain :: "node \<Rightarrow> node option" where
  "cyclic_chain b = (if b = 2 then Some 1 else if b = 1 then Some 2 else None)"


text \<open>
  The parent chain from \<open>bone\<close> ends within \<open>n\<close> steps: it arrives at \<open>skelroot\<close> or at a
  block without a parent.
\<close>

fun path_ends :: "(node \<Rightarrow> node option) \<Rightarrow> node \<Rightarrow> node \<Rightarrow> nat \<Rightarrow> bool" where
  "path_ends parent skelroot bone 0 = False"
| "path_ends parent skelroot bone (Suc n) =
     (case parent bone of None \<Rightarrow> True | Some p \<Rightarrow> p = skelroot \<or> path_ends parent skelroot p n)"


section \<open>Transform math (armature\_import.py)\<close>

text \<open>
  Floats are taken as real numbers. A 3x3 matrix is the triple of its rows, as
  \<open>mathutils\<close> indexes it (\<open>m[row][column]\<close>).
\<close>

type_synonym mat3 = "vec3 \<times> vec3 \<times> vec3"

definition identity3 :: mat3 where
  "identity3 = ((1, 0, 0), (0, 1, 0), (0, 0, 1))"

fun mat_scale :: "mat3 \<Rightarrow> real \<Rightarrow> mat3" where
  "mat_scale ((a, b, c), (d, e, f), (g, h, i)) s =
     ((a * s, b * s, c * s), (d * s, e * s, f * s), (g * s, h * s, i * s))"

fun determinant :: "mat3 \<Rightarrow> real" where
  "determinant ((a, b, c), (d, e, f), (g, h, i)) =
     a * (e * i - f * h) - b * (d * i - f * g) + c * (d * h - e * g)"

text \<open>
  \<open>decompose_srt\<close>. Its argument is what the library call \<open>matrix.decompose()\<close> returned
  for the matrix: the translation, the rotation (as the matrix \<open>rot_quat.to_matrix()\<close>)
  and the vector of the three axis scales. \<open>x ** 0.5\<close> of a negative float is a complex
  number, which \<open>mathutils.Vector\<close> refuses. The result carries the warnings beside the
  list \<open>[b_scale, b_rot, b_trans]\<close>.
\<close>

definition decompose_srt ::
  "real \<Rightarrow> vec3 \<times> mat3 \<times> vec3 \<Rightarrow> error + ((real \<times> mat3 \<times> vec3) \<times> string list)" where
  "decompose_srt epsilon decomposed =
     (case decomposed of (trans_vec, scale_rot, (sx, sy, sz)) \<Rightarrow>
        if sx < 0 \<or> sy < 0 \<or> sz < 0 then Inl TypeError
        else
          (let b_scale = (if determinant scale_rot < 0 then - sqrt sx else sqrt sx);
               warnings = (if \<bar>sx - sy\<bar> \<ge> epsilon \<or> \<bar>sy - sz\<bar> \<ge> epsilon
                           then [''Corrupt rotation matrix in nif: geometry errors may result.'']
                           else [])
           in Inr ((b_scale, mat_scale scale_rot b_scale, trans_vec), warnings)))"


















section \<open>Bone-name round trip\<close>

lemma endswith_append: "endswith (xs @ s) s"
  by (simp add: endswith_def)

lemma endswith_last: "endswith name s \<Longrightarrow> s \<noteq> [] \<Longrightarrow> name \<noteq> [] \<and> last name = last s"
  by (metis endswith_def append_take_drop_id last_appendR list.size(3) le_zero_eq length_0_conv)

text \<open>
  C10. For every bone name \<open>Bip01 L rest\<close> or \<open>Bip01 R rest\<close>, translating to the Blender
  convention and back to the nif convention gives the name back.
\<close>

theorem bip01_name_round_trip:
  "get_bone_name_for_nif (get_bone_name_for_blender (''Bip01 L '' @ rest)) = ''Bip01 L '' @ rest \<and>
   get_bone_name_for_nif (get_bone_name_for_blender (''Bip01 R '' @ rest)) = ''Bip01 R '' @ rest"
proof
  have bl: "get_bone_name_for_blender (''Bip01 L '' @ rest) = ''Bip01 '' @ rest @ ''.L''"
    by (simp add: get_bone_name_for_blender_def startswith_def slice_from_def)
  have el: "endswith (''Bip01 '' @ rest @ ''.L'') ''.L''"
    using endswith_append [of "''Bip01 '' @ rest" "''.L''"] by simp
  show "get_bone_name_for_nif (get_bone_name_for_blender (''Bip01 L '' @ rest)) = ''Bip01 L '' @ rest"
    unfolding bl using el
    by (simp add: get_bone_name_for_nif_def startswith_def slice_from_to_end_minus_def)
next
  have br: "get_bone_name_for_blender (''Bip01 R '' @ rest) = ''Bip01 '' @ rest @ ''.R''"
    by (simp add: get_bone_name_for_blender_def startswith_def slice_from_def)
  have er: "endswith (''Bip01 '' @ rest @ ''.R'') ''.R''"
    using endswith_append [of "''Bip01 '' @ rest" "''.R''"] by simp
  have nl: "\<not> endswith (''Bip01 '' @ rest @ ''.R'') ''.L''"
    using endswith_last [of "''Bip01 '' @ rest @ ''.R''" "''.L''"] by auto
  show "get_bone_name_for_nif (get_bone_name_for_blender (''Bip01 R '' @ rest)) = ''Bip01 R '' @ rest"
    unfolding br using er nl
    by (simp add: get_bone_name_for_nif_def startswith_def slice_from_to_end_minus_def)
qed

section \<open>Cycle-mode flags\<close>

text \<open>
  C8, as stated: a flag value with bit \<open>0b100\<close> set maps to Clamp, the value 0 to Repeat,
  every other value to Clamp with a warning. The value 1 has bit \<open>0b100\<close> clear and is not
  0, yet the function returns the curve with a \<open>CYCLES\<close> modifier (Repeat) and warns
  nothing: only bits 1 and 2 of the flags are read.
\<close>

theorem get_extend_from_flags_one_repeats:
  "(1::int) AND 4 = 0 \<and> (1::int) \<noteq> 0 \<and>
   cycle_mode_of (fst (get_extend_from_flags \<lparr>modifiers = []\<rparr> 1)) = Repeat \<and>
   snd (get_extend_from_flags \<lparr>modifiers = []\<rparr> 1) = []"
  by (simp add: get_extend_from_flags_def cycle_mode_of_def)

text \<open>
  C8, amended: the function looks at \<open>flags AND 6\<close> only. When that is 4 the curve is
  returned untouched (Clamp) without a warning; when it is 0 the curve gets a \<open>CYCLES\<close>
  modifier (Repeat) without a warning; in every other case (2 or 6) the constant
  extrapolation is returned (Clamp) together with one warning.
\<close>

theorem get_extend_from_flags_by_mask:
  "(flags AND 6 = 4 \<longrightarrow> get_extend_from_flags c flags = (FCurve c, [])) \<and>
   (flags AND 6 = 0 \<longrightarrow>
      get_extend_from_flags c flags = (FCurve (c\<lparr>modifiers := modifiers c @ [''CYCLES'']\<rparr>), []) \<and>
      cycle_mode_of (fst (get_extend_from_flags c flags)) = Repeat) \<and>
   (flags AND 6 \<noteq> 4 \<and> flags AND 6 \<noteq> 0 \<longrightarrow>
      get_extend_from_flags c flags =
        (Extrapolation ''CONSTANT'', [''Unsupported cycle mode in nif, using clamped.'']) \<and>
      cycle_mode_of (fst (get_extend_from_flags c flags)) = Clamp)"
  by (simp add: get_extend_from_flags_def cycle_mode_of_def)

theorem get_extend_from_flags_by_mask_witness:
  "get_extend_from_flags \<lparr>modifiers = []\<rparr> 12 = (FCurve \<lparr>modifiers = []\<rparr>, []) \<and>
   get_extend_from_flags \<lparr>modifiers = []\<rparr> 8 = (FCurve \<lparr>modifiers = [''CYCLES'']\<rparr>, []) \<and>
   get_extend_from_flags \<lparr>modifiers = []\<rparr> 10 =
     (Extrapolation ''CONSTANT'', [''Unsupported cycle mode in nif, using clamped.''])"
  using get_extend_from_flags_by_mask [of 12 "\<lparr>modifiers = []\<rparr>"]
    get_extend_from_flags_by_mask [of 8 "\<lparr>modifiers = []\<rparr>"]
    get_extend_from_flags_by_mask [of 10 "\<lparr>modifiers = []\<rparr>"]
  by simp

section \<open>Flip controller\<close>

text \<open>
  What the function does for an object that has a context, as the sibling classes'
  objects have: it raises exactly when the flip buffer has fewer than two non-empty lines,
  with \<open>NifError\<close>; otherwise delta is \<open>(stop_time - start_time) / count\<close>, and two textures
  over a span of 100 give 50.
\<close>

lemma export_flip_controller_with_context:
  assumes "context_attr self = Some ctx"
  shows "((\<exists>e. export_flip_controller self tlist slot = Inl e) \<longleftrightarrow>
      length (filter (\<lambda>t. t \<noteq> []) tlist) < 2) \<and>
   (\<forall>e. export_flip_controller self tlist slot = Inl e \<longrightarrow> e = NifError) \<and>
   (\<forall>flip. export_flip_controller self tlist slot = Inr flip \<longrightarrow>
      start_time flip = (frame_start ctx - 1) * fps ctx \<and>
      stop_time flip = (frame_end ctx - frame_start ctx) * fps ctx \<and>
      delta flip = real_of_int (stop_time flip - start_time flip) /
                   real (length (filter (\<lambda>t. t \<noteq> []) tlist)) \<and>
      (length (filter (\<lambda>t. t \<noteq> []) tlist) = 2 \<and> stop_time flip - start_time flip = 100 \<longrightarrow>
         delta flip = 50))"
proof -
  let ?n = "length (filter (\<lambda>t. t \<noteq> []) tlist)"
  have span: "real_of_int (100::int) / real (2::nat) = 50" by simp
  show ?thesis
  proof (cases "?n < 2")
    case True
    then show ?thesis using assms by (simp add: export_flip_controller_def Let_def)
  next
    case False
    then show ?thesis
      using span assms
      by (auto simp add: export_flip_controller_def Let_def simp del: of_int_diff of_int_mult)
  qed
qed

text \<open>
  C9. An object made by \<open>TextureAnimation\<close> has no context, so \<open>export_flip_controller\<close>
  raises \<open>AttributeError\<close> for every flip buffer, also for one with two textures: it
  neither raises the configuration error nor sets a delta.
\<close>

theorem export_flip_controller_attribute_error:
  "export_flip_controller (TextureAnimation parent) tlist target_tex = Inl AttributeError \<and>
   export_flip_controller
     (TextureAnimation \<lparr>exporter_context = \<lparr>frame_start = 1, frame_end = 101, fps = 1\<rparr>\<rparr>)
     [''a.dds'', ''b.dds''] 0 = Inl AttributeError"
  by (simp add: export_flip_controller_def TextureAnimation_def)

section \<open>Vertex merging\<close>

text \<open>
  With \<open>combine_vertices\<close> off every source vertex gets a mesh vertex of its own: the
  vertex map is the run of new indices.
\<close>

lemma vertex_step_no_combine:
  assumes "vertex_step False n_norms tr i v st = Inr st1"
  shows "v_map st1 = (v_map st)[i := b_v_index st] \<and> b_v_index st1 = b_v_index st + 1"
  using assms by (auto simp: vertex_step_def Let_def split: sum.splits)

lemma vertex_loop_no_combine:
  "vertex_loop False n_norms tr (enumerate n vs) st = Inr st' \<Longrightarrow>
   n + length vs \<le> length (v_map st) \<Longrightarrow>
   length (v_map st') = length (v_map st) \<and>
   (\<forall>i<n. v_map st' ! i = v_map st ! i) \<and>
   (\<forall>k<length vs. v_map st' ! (n + k) = b_v_index st + k)"
proof (induction vs arbitrary: n st)
  case Nil
  then show ?case by simp
next
  case (Cons v vs)
  from Cons.prems(1) obtain st1 where s: "vertex_step False n_norms tr n v st = Inr st1"
    and l: "vertex_loop False n_norms tr (enumerate (Suc n) vs) st1 = Inr st'"
    by (auto split: sum.splits)
  from vertex_step_no_combine [OF s] have vm: "v_map st1 = (v_map st)[n := b_v_index st]"
    and bi: "b_v_index st1 = b_v_index st + 1" by simp_all
  have p: "Suc n + length vs \<le> length (v_map st1)" using Cons.prems(2) vm by simp
  from Cons.IH [OF l p] have len: "length (v_map st') = length (v_map st1)"
    and low: "\<forall>i<Suc n. v_map st' ! i = v_map st1 ! i"
    and new: "\<forall>k<length vs. v_map st' ! (Suc n + k) = b_v_index st1 + k" by simp_all
  have n: "n < length (v_map st)" using Cons.prems(2) by simp
  show ?case
  proof (intro conjI allI impI)
    show "length (v_map st') = length (v_map st)" using len vm by simp
  next
    fix i assume "i < n"
    then show "v_map st' ! i = v_map st ! i" using low vm by simp
  next
    fix k assume k: "k < length (v # vs)"
    show "v_map st' ! (n + k) = b_v_index st + k"
    proof (cases k)
      case 0
      have "v_map st' ! n = v_map st1 ! n" using low by simp
      also have "\<dots> = b_v_index st" using vm n by simp
      finally show ?thesis using 0 by simp
    next
      case (Suc j)
      with k have "j < length vs" by simp
      with new have "v_map st' ! (Suc n + j) = b_v_index st1 + j" by simp
      with Suc bi show ?thesis by simp
    qed
  qed
qed

lemma import_mesh_vertices_no_combine:
  assumes "import_mesh_vertices False n_norms tr n_vertices_before n_verts = Inr st"
  shows "v_map st = [n_vertices_before..<n_vertices_before + length n_verts]"
proof -
  let ?st0 = "\<lparr>n_map = Map.empty, v_map = [0..<length n_verts], b_v_index = n_vertices_before,
        added = []\<rparr>"
  from assms have l: "vertex_loop False n_norms tr (enumerate 0 n_verts) ?st0 = Inr st"
    by (simp add: import_mesh_vertices_def)
  from vertex_loop_no_combine [OF l] have len: "length (v_map st) = length n_verts"
    and new: "\<forall>k<length n_verts. v_map st ! k = n_vertices_before + k" by simp_all
  show ?thesis
    by (rule nth_equalityI) (simp_all add: len new)
qed

text \<open>
  C1. With \<open>combine_vertices\<close> on, three source vertices at the origin (no normals) have
  the same key, yet source vertex 0 keeps mesh vertex 0 for itself: vertex 1 becomes a new
  mesh vertex, and only vertex 2 is merged into it. The lookup \<open>n_map[k]\<close> returns the
  source index 0, which \<open>if not n_map_k\<close> takes for "not added".
\<close>

theorem import_mesh_vertices_first_vertex_not_merged:
  "vertex_key [] 0 (0, 0, 0) = vertex_key [] 1 (0, 0, 0) \<and>
   vertex_key [] 1 (0, 0, 0) = vertex_key [] 2 (0, 0, 0) \<and>
   map_sum id v_map (import_mesh_vertices True [] id 0 [(0, 0, 0), (0, 0, 0), (0, 0, 0)]) =
     Inr [0, 1, 1]"
  by (simp add: import_mesh_vertices_def vertex_step_def vertex_key_def py_int_def)

section \<open>Polygons kept by the mesh import\<close>

lemma remap_face_Inr: "remap_face vmap f = Inr fv \<Longrightarrow> fv = remapped vmap f"
  by (induction f arbitrary: fv) (auto simp: remapped_def split: if_splits sum.splits)

lemma remap_face_in_range:
  "\<forall>v\<in>set f. v < length vmap \<Longrightarrow> remap_face vmap f = Inr (remapped vmap f)"
  by (induction f) (auto simp: remapped_def)

lemma polygon_step_cases:
  assumes "polygon_step vmap i f st = Inr st1"
  shows "(remapped vmap f \<in> set (unique_faces st) \<and> st1 = st) \<or>
         (remapped vmap f \<notin> set (unique_faces st) \<and>
          st1 = st\<lparr>unique_faces := unique_faces st @ [remapped vmap f],
                   f_map := (f_map st)[i := Some (b_f_index st)],
                   tri_point_list := tri_point_list st @ [length f],
                   b_f_index := b_f_index st + 1,
                   num_new_faces := num_new_faces st + 1\<rparr>)"
proof (cases "remap_face vmap f")
  case (Inl e)
  with assms show ?thesis by (simp add: polygon_step_def)
next
  case (Inr fv)
  then have "fv = remapped vmap f" by (rule remap_face_Inr)
  with Inr assms show ?thesis by (auto simp: polygon_step_def split: if_splits)
qed

lemma polygon_step_total:
  "\<forall>v\<in>set f. v < length vmap \<Longrightarrow> \<exists>st1. polygon_step vmap i f st = Inr st1"
  by (simp add: polygon_step_def remap_face_in_range)

lemma polygon_loop_total:
  "\<forall>f\<in>set fs. \<forall>v\<in>set f. v < length vmap \<Longrightarrow> \<exists>st'. polygon_loop vmap (enumerate n fs) st = Inr st'"
proof (induction fs arbitrary: n st)
  case Nil
  then show ?case by simp
next
  case (Cons f fs)
  then obtain st1 where s: "polygon_step vmap n f st = Inr st1"
    using polygon_step_total [of f vmap n st] by auto
  from Cons obtain st' where "polygon_loop vmap (enumerate (Suc n) fs) st1 = Inr st'"
    by fastforce
  with s show ?case by simp
qed

lemma polygon_loop_faces:
  "polygon_loop vmap (enumerate n fs) st = Inr st' \<Longrightarrow>
   set (unique_faces st') = set (unique_faces st) \<union> remapped vmap ` set fs \<and>
   (distinct (unique_faces st) \<longrightarrow> distinct (unique_faces st')) \<and>
   num_new_faces st' + length (unique_faces st) = num_new_faces st + length (unique_faces st')"
proof (induction fs arbitrary: n st)
  case Nil
  then show ?case by simp
next
  case (Cons f fs)
  from Cons.prems obtain st1 where s: "polygon_step vmap n f st = Inr st1"
    and l: "polygon_loop vmap (enumerate (Suc n) fs) st1 = Inr st'"
    by (auto split: sum.splits)
  note ih = Cons.IH [OF l]
  from polygon_step_cases [OF s] show ?case
  proof
    assume "remapped vmap f \<in> set (unique_faces st) \<and> st1 = st"
    with ih show ?thesis by auto
  next
    assume "remapped vmap f \<notin> set (unique_faces st) \<and>
          st1 = st\<lparr>unique_faces := unique_faces st @ [remapped vmap f],
                   f_map := (f_map st)[n := Some (b_f_index st)],
                   tri_point_list := tri_point_list st @ [length f],
                   b_f_index := b_f_index st + 1,
                   num_new_faces := num_new_faces st + 1\<rparr>"
    with ih show ?thesis by auto
  qed
qed

lemma filter_update_count:
  "i < length xs \<Longrightarrow> xs ! i = None \<Longrightarrow>
   length (filter (\<lambda>x. x \<noteq> None) (xs[i := Some y])) = Suc (length (filter (\<lambda>x. x \<noteq> None) xs))"
proof (induction xs arbitrary: i)
  case Nil
  then show ?case by simp
next
  case (Cons x xs)
  then show ?case by (cases i) auto
qed

lemma polygon_loop_f_map:
  "polygon_loop vmap (enumerate n fs) st = Inr st' \<Longrightarrow>
   n + length fs \<le> length (f_map st) \<Longrightarrow>
   \<forall>i. n \<le> i \<and> i < length (f_map st) \<longrightarrow> f_map st ! i = None \<Longrightarrow>
   length (f_map st') = length (f_map st) \<and>
   (\<forall>i<n. f_map st' ! i = f_map st ! i) \<and>
   (\<forall>k<length fs. f_map st' ! (n + k) = None \<longleftrightarrow>
       remapped vmap (fs ! k) \<in> set (unique_faces st) \<union> remapped vmap ` set (take k fs)) \<and>
   length (filter (\<lambda>x. x \<noteq> None) (f_map st')) + num_new_faces st =
     length (filter (\<lambda>x. x \<noteq> None) (f_map st)) + num_new_faces st'"
proof (induction fs arbitrary: n st)
  case Nil
  then show ?case by simp
next
  case (Cons f fs)
  from Cons.prems(1) obtain st1 where s: "polygon_step vmap n f st = Inr st1"
    and l: "polygon_loop vmap (enumerate (Suc n) fs) st1 = Inr st'"
    by (auto split: sum.splits)
  have n: "n < length (f_map st)" and nn: "f_map st ! n = None"
    using Cons.prems(2,3) by auto
  from polygon_step_cases [OF s] show ?case
  proof
    assume a: "remapped vmap f \<in> set (unique_faces st) \<and> st1 = st"
    then have st1: "st1 = st" by simp
    have ih: "length (f_map st') = length (f_map st) \<and>
      (\<forall>i<Suc n. f_map st' ! i = f_map st ! i) \<and>
      (\<forall>k<length fs. f_map st' ! (Suc n + k) = None \<longleftrightarrow>
         remapped vmap (fs ! k) \<in> set (unique_faces st) \<union> remapped vmap ` set (take k fs)) \<and>
      length (filter (\<lambda>x. x \<noteq> None) (f_map st')) + num_new_faces st =
        length (filter (\<lambda>x. x \<noteq> None) (f_map st)) + num_new_faces st'"
      using Cons.IH [OF l] Cons.prems(2,3) unfolding st1 by auto
    show ?thesis
    proof (intro conjI allI impI)
      show "length (f_map st') = length (f_map st)" using ih by simp
    next
      fix i assume "i < n" then show "f_map st' ! i = f_map st ! i" using ih by simp
    next
      fix k assume k: "k < length (f # fs)"
      show "f_map st' ! (n + k) = None \<longleftrightarrow>
        remapped vmap ((f # fs) ! k) \<in> set (unique_faces st) \<union> remapped vmap ` set (take k (f # fs))"
      proof (cases k)
        case 0
        then show ?thesis using ih nn a by simp
      next
        case (Suc k')
        with k have "k' < length fs" by simp
        with ih have "f_map st' ! (Suc n + k') = None \<longleftrightarrow>
          remapped vmap (fs ! k') \<in> set (unique_faces st) \<union> remapped vmap ` set (take k' fs)"
          by blast
        with Suc a show ?thesis by auto
      qed
    next
      show "length (filter (\<lambda>x. x \<noteq> None) (f_map st')) + num_new_faces st =
        length (filter (\<lambda>x. x \<noteq> None) (f_map st)) + num_new_faces st'"
        using ih by simp
    qed
  next
    assume a: "remapped vmap f \<notin> set (unique_faces st) \<and>
          st1 = st\<lparr>unique_faces := unique_faces st @ [remapped vmap f],
                   f_map := (f_map st)[n := Some (b_f_index st)],
                   tri_point_list := tri_point_list st @ [length f],
                   b_f_index := b_f_index st + 1,
                   num_new_faces := num_new_faces st + 1\<rparr>"
    then have fm: "f_map st1 = (f_map st)[n := Some (b_f_index st)]"
      and uf: "unique_faces st1 = unique_faces st @ [remapped vmap f]"
      and nf: "num_new_faces st1 = num_new_faces st + 1" by simp_all
    have p2: "Suc n + length fs \<le> length (f_map st1)" using Cons.prems(2) fm by simp
    have p3: "\<forall>i. Suc n \<le> i \<and> i < length (f_map st1) \<longrightarrow> f_map st1 ! i = None"
      using Cons.prems(3) fm by simp
    have cnt: "length (filter (\<lambda>x. x \<noteq> None) (f_map st1)) =
      Suc (length (filter (\<lambda>x. x \<noteq> None) (f_map st)))"
      unfolding fm using filter_update_count [OF n nn] by simp
    have ih: "length (f_map st') = length (f_map st1) \<and>
      (\<forall>i<Suc n. f_map st' ! i = f_map st1 ! i) \<and>
      (\<forall>k<length fs. f_map st' ! (Suc n + k) = None \<longleftrightarrow>
         remapped vmap (fs ! k) \<in> set (unique_faces st1) \<union> remapped vmap ` set (take k fs)) \<and>
      length (filter (\<lambda>x. x \<noteq> None) (f_map st')) + num_new_faces st1 =
        length (filter (\<lambda>x. x \<noteq> None) (f_map st1)) + num_new_faces st'"
      using Cons.IH [OF l p2 p3] by simp
    show ?thesis
    proof (intro conjI allI impI)
      show "length (f_map st') = length (f_map st)" using ih fm by simp
    next
      fix i assume "i < n" then show "f_map st' ! i = f_map st ! i" using ih fm by simp
    next
      fix k assume k: "k < length (f # fs)"
      show "f_map st' ! (n + k) = None \<longleftrightarrow>
        remapped vmap ((f # fs) ! k) \<in> set (unique_faces st) \<union> remapped vmap ` set (take k (f # fs))"
      proof (cases k)
        case 0
        have "f_map st' ! n = f_map st1 ! n" using ih by simp
        also have "\<dots> = Some (b_f_index st)" using fm n by simp
        finally show ?thesis using 0 a by simp
      next
        case (Suc k')
        with k have "k' < length fs" by simp
        with ih have "f_map st' ! (Suc n + k') = None \<longleftrightarrow>
          remapped vmap (fs ! k') \<in> set (unique_faces st1) \<union> remapped vmap ` set (take k' fs)"
          by blast
        with Suc uf show ?thesis by auto
      qed
    next
      show "length (filter (\<lambda>x. x \<noteq> None) (f_map st')) + num_new_faces st =
        length (filter (\<lambda>x. x \<noteq> None) (f_map st)) + num_new_faces st'"
        using ih cnt nf by simp
    qed
  qed
qed


text \<open>
  The books of the first loop are as the comments of the source say: when every vertex
  index is in range the loop returns, the number of polygons it marks as kept
  (\<open>num_new_faces\<close>, the length of \<open>unique_faces\<close>, the entries of \<open>f_map\<close> that are set) is
  at most the number of source polygons, with equality exactly when the remapped tuples are
  pairwise different as lists, and \<open>f_map[i]\<close> stays \<open>None\<close> exactly when the remapped
  tuple of polygon \<open>i\<close> equals that of an earlier polygon.
\<close>

lemma polygon_loop_count:
  assumes "\<forall>f\<in>set poly_gens. \<forall>v\<in>set f. v < length vmap"
  shows "\<exists>st. polygon_loop vmap (enumerate 0 poly_gens)
             \<lparr>f_map = replicate (length poly_gens) None, unique_faces = [],
              tri_point_list = [], b_f_index = n0, num_new_faces = 0\<rparr> = Inr st \<and>
     num_new_faces st = length (unique_faces st) \<and>
     num_new_faces st = length (filter (\<lambda>x. x \<noteq> None) (f_map st)) \<and>
     num_new_faces st \<le> length poly_gens \<and>
     (num_new_faces st = length poly_gens \<longleftrightarrow> distinct (map (remapped vmap) poly_gens)) \<and>
     (\<forall>i<length poly_gens. f_map st ! i = None \<longleftrightarrow>
        (\<exists>j<i. remapped vmap (poly_gens ! j) = remapped vmap (poly_gens ! i)))"
proof -
  let ?st0 = "\<lparr>f_map = replicate (length poly_gens) None, unique_faces = [],
     tri_point_list = [], b_f_index = n0, num_new_faces = 0\<rparr>"
  from polygon_loop_total [OF assms] obtain st
    where l: "polygon_loop vmap (enumerate 0 poly_gens) ?st0 = Inr st" by blast
  from polygon_loop_faces [OF l]
  have uf: "set (unique_faces st) = set (map (remapped vmap) poly_gens)"
    and di: "distinct (unique_faces st)"
    and nu: "num_new_faces st = length (unique_faces st)" by simp_all
  have fm: "length (f_map st) = length poly_gens \<and>
    (\<forall>k<length poly_gens. f_map st ! (0 + k) = None \<longleftrightarrow>
       remapped vmap (poly_gens ! k) \<in> set (unique_faces ?st0) \<union> remapped vmap ` set (take k poly_gens)) \<and>
    length (filter (\<lambda>x. x \<noteq> None) (f_map st)) + num_new_faces ?st0 =
      length (filter (\<lambda>x. x \<noteq> None) (f_map ?st0)) + num_new_faces st"
    using polygon_loop_f_map [OF l] by simp
  then have cnt: "num_new_faces st = length (filter (\<lambda>x. x \<noteq> None) (f_map st))" by simp
  have card: "length (unique_faces st) = card (set (map (remapped vmap) poly_gens))"
    using di uf distinct_card by metis
  have le: "num_new_faces st \<le> length poly_gens"
    unfolding nu card using card_length [of "map (remapped vmap) poly_gens"] by simp
  have eq: "num_new_faces st = length poly_gens \<longleftrightarrow> distinct (map (remapped vmap) poly_gens)"
    unfolding nu card
    using card_distinct [of "map (remapped vmap) poly_gens"]
      distinct_card [of "map (remapped vmap) poly_gens"] by auto
  have dup: "\<forall>i<length poly_gens. f_map st ! i = None \<longleftrightarrow>
        (\<exists>j<i. remapped vmap (poly_gens ! j) = remapped vmap (poly_gens ! i))"
  proof (intro allI impI)
    fix i assume i: "i < length poly_gens"
    with fm have "f_map st ! i = None \<longleftrightarrow>
      remapped vmap (poly_gens ! i) \<in> remapped vmap ` set (take i poly_gens)" by simp
    also have "\<dots> \<longleftrightarrow> (\<exists>j<i. remapped vmap (poly_gens ! j) = remapped vmap (poly_gens ! i))"
    proof
      assume "remapped vmap (poly_gens ! i) \<in> remapped vmap ` set (take i poly_gens)"
      then obtain g where g: "g \<in> set (take i poly_gens)"
        and e: "remapped vmap (poly_gens ! i) = remapped vmap g" by auto
      from g obtain j where "j < length (take i poly_gens)" "take i poly_gens ! j = g"
        by (auto simp: in_set_conv_nth)
      with i e show "\<exists>j<i. remapped vmap (poly_gens ! j) = remapped vmap (poly_gens ! i)"
        by auto
    next
      assume "\<exists>j<i. remapped vmap (poly_gens ! j) = remapped vmap (poly_gens ! i)"
      then obtain j where j: "j < i"
        and e: "remapped vmap (poly_gens ! j) = remapped vmap (poly_gens ! i)" by blast
      from j i have "poly_gens ! j \<in> set (take i poly_gens)"
        by (auto simp: in_set_conv_nth intro!: exI [of _ j])
      with e show "remapped vmap (poly_gens ! i) \<in> remapped vmap ` set (take i poly_gens)"
        by (metis imageI)
    qed
    finally show "f_map st ! i = None \<longleftrightarrow>
      (\<exists>j<i. remapped vmap (poly_gens ! j) = remapped vmap (poly_gens ! i))" .
  qed
  from l nu cnt le eq dup show ?thesis by blast
qed

text \<open>
  C2. Three source polygons, the second a duplicate of the first, on an empty mesh: the
  mesh ends with three polygons, as many as the source has, although one of them is a
  duplicate; only polygon 0 is written; polygon 1, the place the books give to the third
  source polygon \<open>[0, 2, 3]\<close>, keeps \<open>loop_total = 0\<close>, so a polygon that duplicates
  nothing is lost. With no source polygon at all the function raises.
\<close>

theorem import_mesh_polygons_duplicate:
  "map_sum id (\<lambda>(mesh, st). (mesh_polygons mesh, mesh_loops mesh, f_map st, num_new_faces st))
     (import_mesh_polygons [0, 1, 2, 3] \<lparr>mesh_polygons = [], mesh_loops = []\<rparr>
        [[0, 1, 2], [0, 1, 2], [0, 2, 3]]) =
   Inr ([(0, 3), (0, 0), (0, 0)], [0, 1, 2, 0, 0, 0, 0, 0, 0], [Some 0, None, Some 1], 2) \<and>
   import_mesh_polygons [0, 1, 2, 3] \<lparr>mesh_polygons = [], mesh_loops = []\<rparr> [] =
     Inl UnboundLocalError"
  by (simp add: import_mesh_polygons_def polygon_step_def Let_def upt_rec eval_nat_numeral)

section \<open>Static pose instead of keyframe data\<close>

text \<open>
  Given composed curves with at most one key each and a version from \<open>0x0A020000\<close> on,
  the real export makes no data block, writes a single translation and a single rotation
  sample into the interpolator, and sets the interpolator's scale to 1 whatever the scale
  curve holds ("ignore scale for now").
\<close>

lemma write_keyframes_static_pose:
  assumes "VERSION_10_2_0_0 \<le> version" and "kfc_interpolator kfc = Some i0"
    and "length rot_curve \<le> 1" and "length trans_curve \<le> 1" and "length scale_curve \<le> 1"
  shows "\<exists>i. write_keyframes version rate to_quat kfc rot_curve trans_curve scale_curve =
           Inr (Some (kfc\<lparr>kfc_interpolator := Some i\<rparr>)) \<and>
         data i = data i0 \<and> scale i = 1 \<and>
         (trans_curve = [] \<longrightarrow> translation i = translation i0) \<and>
         (\<forall>frame v. trans_curve = [(frame, v)] \<longrightarrow> translation i = v) \<and>
         (rot_curve = [] \<longrightarrow> rotation i = rotation i0) \<and>
         (\<forall>frame w x y z. rot_curve = [(frame, Quaternion w x y z)] \<longrightarrow> rotation i = (w, x, y, z)) \<and>
         (\<forall>frame x y z. rot_curve = [(frame, Euler x y z)] \<longrightarrow> rotation i = to_quat x y z)"
proof -
  have m: "max (length rot_curve) (max (length trans_curve) (length scale_curve)) \<le> 1"
    using assms(3-5) by simp
  show ?thesis
    unfolding write_keyframes_def using assms(1,2) m
    by (auto simp add: Let_def)
qed

text \<open>
  No call with an action reaches the real export: it returns early for a geometry-only
  export, or it raises.
\<close>

lemma export_keyframes_action_never_exports:
  assumes "b_action = Some curves"
  shows "(\<exists>e. export_keyframes animation version scene cyclic to_quat b_action space
                 parent_is_node parent = Inl e) \<or>
         animation = ''GEOM_NIF''"
  using assms
  by (auto simp add: export_keyframes_def Let_def split: sum.splits prod.splits)

text \<open>
  C3. An action whose translation track has exactly one key, of value \<open>(1, 2, 3)\<close> at
  frame 1, exported for version \<open>0x0A020000\<close>: the function raises \<open>NameError\<close> at the
  first use of \<open>Ipo\<close>, so the default translation is never set to \<open>(1, 2, 3)\<close>. Only a call
  without an action reaches the static branch, with three empty curves.
\<close>

theorem export_keyframes_single_key_name_error:
  "export_keyframes ''ALL_NIF'' VERSION_10_2_0_0 \<lparr>frame_start = 1, frame_end = 100, fps = 30\<rparr>
     \<lparr>extrapolation = ''CONSTANT'', modifier = ''CYCLES''\<rparr> (\<lambda>x y z. (1, 0, 0, 0))
     (Some [\<lparr>channel = ''LocX'',
              curve_extend = \<lparr>extrapolation = ''CONSTANT'', modifier = ''NONE''\<rparr>,
              bezierPoints = [(1, 1)]\<rparr>,
            \<lparr>channel = ''LocY'',
              curve_extend = \<lparr>extrapolation = ''CONSTANT'', modifier = ''NONE''\<rparr>,
              bezierPoints = [(1, 2)]\<rparr>,
            \<lparr>channel = ''LocZ'',
              curve_extend = \<lparr>extrapolation = ''CONSTANT'', modifier = ''NONE''\<rparr>,
              bezierPoints = [(1, 3)]\<rparr>])
     ''localspace'' True (1, (1, 0, 0, 0), (0, 0, 0)) = Inl NameError \<and>
   export_keyframes ''ALL_NIF'' VERSION_10_2_0_0 \<lparr>frame_start = 1, frame_end = 100, fps = 30\<rparr>
     \<lparr>extrapolation = ''CONSTANT'', modifier = ''CYCLES''\<rparr> (\<lambda>x y z. (1, 0, 0, 0))
     None ''localspace'' True (3, (1, 0, 0, 0), (0, 0, 0)) =
   Inr (Some \<lparr>kfc_flags = 8, kfc_start_time = 0, kfc_stop_time = 2970, kfc_data = None,
              kfc_interpolator =
                Some \<lparr>translation = (0, 0, 0), rotation = (1, 0, 0, 0), scale = 1, data = None\<rparr>\<rparr>)"
  by (simp add: export_keyframes_def write_keyframes_def get_flags_from_extend_def
      VERSION_10_2_0_0_def)

section \<open>The bone tree of an armature\<close>

lemma complete_bone_tree_result:
  assumes "complete_bone_tree parent d bone skelroot = Some y"
  shows "\<forall>d'. y = Inr d' \<longrightarrow>
    (\<exists>n bones bones'. d skelroot = Some bones \<and> d' skelroot = Some bones' \<and> bone \<in> set bones \<and>
       nth_parent parent bone (Suc n) = Some skelroot \<and>
       (\<forall>k. 1 \<le> k \<and> k \<le> n \<longrightarrow> nth_parent parent bone k \<noteq> Some skelroot) \<and>
       set bones' = set bones \<union> {a. \<exists>k\<le>n. nth_parent parent bone k = Some a} \<and>
       (\<forall>r. r \<noteq> skelroot \<longrightarrow> d' r = d r))"
proof (rule complete_bone_tree.raw_induct [where P = "\<lambda>parent d bone skelroot y. \<forall>d'. y = Inr d' \<longrightarrow>
    (\<exists>n bones bones'. d skelroot = Some bones \<and> d' skelroot = Some bones' \<and> bone \<in> set bones \<and>
       nth_parent parent bone (Suc n) = Some skelroot \<and>
       (\<forall>k. 1 \<le> k \<and> k \<le> n \<longrightarrow> nth_parent parent bone k \<noteq> Some skelroot) \<and>
       set bones' = set bones \<union> {a. \<exists>k\<le>n. nth_parent parent bone k = Some a} \<and>
       (\<forall>r. r \<noteq> skelroot \<longrightarrow> d' r = d r))", OF _ assms])
  fix cbt :: "(node \<Rightarrow> node option) \<Rightarrow> armatures \<Rightarrow> node \<Rightarrow> node \<Rightarrow> (error + armatures) option"
    and parent d bone skelroot y
  assume IH: "\<And>parent d bone skelroot y. cbt parent d bone skelroot = Some y \<Longrightarrow> \<forall>d'. y = Inr d' \<longrightarrow>
    (\<exists>n bones bones'. d skelroot = Some bones \<and> d' skelroot = Some bones' \<and> bone \<in> set bones \<and>
       nth_parent parent bone (Suc n) = Some skelroot \<and>
       (\<forall>k. 1 \<le> k \<and> k \<le> n \<longrightarrow> nth_parent parent bone k \<noteq> Some skelroot) \<and>
       set bones' = set bones \<union> {a. \<exists>k\<le>n. nth_parent parent bone k = Some a} \<and>
       (\<forall>r. r \<noteq> skelroot \<longrightarrow> d' r = d r))"
  assume body: "(case d skelroot of
        None \<Rightarrow> Some (Inl AssertionError)
      | Some bones \<Rightarrow>
          if bone \<notin> set bones then Some (Inl AssertionError)
          else
            (case parent bone of
               None \<Rightarrow> Some (Inl AttributeError)
             | Some boneparent \<Rightarrow>
                 if boneparent \<noteq> skelroot then
                   cbt parent
                     (if boneparent \<notin> set bones then d(skelroot \<mapsto> bones @ [boneparent])
                      else d)
                     boneparent skelroot
                 else Some (Inr d))) = Some y"
  show "\<forall>d'. y = Inr d' \<longrightarrow>
    (\<exists>n bones bones'. d skelroot = Some bones \<and> d' skelroot = Some bones' \<and> bone \<in> set bones \<and>
       nth_parent parent bone (Suc n) = Some skelroot \<and>
       (\<forall>k. 1 \<le> k \<and> k \<le> n \<longrightarrow> nth_parent parent bone k \<noteq> Some skelroot) \<and>
       set bones' = set bones \<union> {a. \<exists>k\<le>n. nth_parent parent bone k = Some a} \<and>
       (\<forall>r. r \<noteq> skelroot \<longrightarrow> d' r = d r))"
  proof (intro allI impI)
    fix d' assume y: "y = Inr d'"
    from body y obtain bones where db: "d skelroot = Some bones"
      by (auto split: option.splits)
    from body y db have bin: "bone \<in> set bones"
      by (auto split: if_splits)
    from body y db bin obtain bp where pb: "parent bone = Some bp"
      by (auto split: option.splits)
    show "\<exists>n bones bones'. d skelroot = Some bones \<and> d' skelroot = Some bones' \<and> bone \<in> set bones \<and>
       nth_parent parent bone (Suc n) = Some skelroot \<and>
       (\<forall>k. 1 \<le> k \<and> k \<le> n \<longrightarrow> nth_parent parent bone k \<noteq> Some skelroot) \<and>
       set bones' = set bones \<union> {a. \<exists>k\<le>n. nth_parent parent bone k = Some a} \<and>
       (\<forall>r. r \<noteq> skelroot \<longrightarrow> d' r = d r)"
    proof (cases "bp = skelroot")
      case True
      with body y db bin pb have dd: "d' = d" by simp
      have s: "set bones = set bones \<union> {a. \<exists>k\<le>(0::nat). nth_parent parent bone k = Some a}"
        using bin by auto
      show ?thesis
        apply (rule exI [of _ 0], rule exI [of _ bones], rule exI [of _ bones])
        using dd db bin pb True s by simp
    next
      case False
      define d1 where "d1 = (if bp \<notin> set bones then d(skelroot \<mapsto> bones @ [bp]) else d)"
      from body y db bin pb False have rec: "cbt parent d1 bp skelroot = Some (Inr d')"
        by (simp add: d1_def)
      from IH [OF rec] obtain n bones1 bones' where
        d1b: "d1 skelroot = Some bones1" and d'b: "d' skelroot = Some bones'"
        and np: "nth_parent parent bp (Suc n) = Some skelroot"
        and nr: "\<forall>k. 1 \<le> k \<and> k \<le> n \<longrightarrow> nth_parent parent bp k \<noteq> Some skelroot"
        and st: "set bones' = set bones1 \<union> {a. \<exists>k\<le>n. nth_parent parent bp k = Some a}"
        and other: "\<forall>r. r \<noteq> skelroot \<longrightarrow> d' r = d1 r"
        by blast
      have b1: "set bones1 = insert bp (set bones)"
        using d1b db by (auto simp: d1_def split: if_splits)
      have np': "nth_parent parent bone (Suc (Suc n)) = Some skelroot"
        using np pb by simp
      have nr': "\<forall>k. 1 \<le> k \<and> k \<le> Suc n \<longrightarrow> nth_parent parent bone k \<noteq> Some skelroot"
      proof (intro allI impI)
        fix k assume k: "1 \<le> k \<and> k \<le> Suc n"
        then obtain k' where k': "k = Suc k'" "k' \<le> n" by (cases k) auto
        show "nth_parent parent bone k \<noteq> Some skelroot"
        proof (cases k')
          case 0
          with k' pb False show ?thesis by simp
        next
          case (Suc j)
          then have "1 \<le> k' \<and> k' \<le> n" using k' by simp
          with nr have ne: "nth_parent parent bp k' \<noteq> Some skelroot" by blast
          have "nth_parent parent bone (Suc k') = nth_parent parent bp k'" using pb by simp
          with ne k' show ?thesis by metis
        qed
      qed
      have anc: "{a. \<exists>k\<le>Suc n. nth_parent parent bone k = Some a} =
                 insert bone {a. \<exists>k\<le>n. nth_parent parent bp k = Some a}"
      proof (intro set_eqI iffI)
        fix a assume "a \<in> {a. \<exists>k\<le>Suc n. nth_parent parent bone k = Some a}"
        then obtain k where k: "k \<le> Suc n" "nth_parent parent bone k = Some a" by blast
        show "a \<in> insert bone {a. \<exists>k\<le>n. nth_parent parent bp k = Some a}"
        proof (cases k)
          case 0
          with k show ?thesis by simp
        next
          case (Suc j)
          with k pb have "j \<le> n" "nth_parent parent bp j = Some a" by simp_all
          then show ?thesis by blast
        qed
      next
        fix a assume a: "a \<in> insert bone {a. \<exists>k\<le>n. nth_parent parent bp k = Some a}"
        show "a \<in> {a. \<exists>k\<le>Suc n. nth_parent parent bone k = Some a}"
        proof (cases "a = bone")
          case True
          have "nth_parent parent bone 0 = Some bone" by simp
          with True show ?thesis by blast
        next
          case False
          with a obtain j where "j \<le> n" "nth_parent parent bp j = Some a" by blast
          with pb have "Suc j \<le> Suc n" "nth_parent parent bone (Suc j) = Some a" by simp_all
          then show ?thesis by blast
        qed
      qed
      have bp0: "bp \<in> {a. \<exists>k\<le>n. nth_parent parent bp k = Some a}"
      proof -
        have "nth_parent parent bp 0 = Some bp" by simp
        then show ?thesis by blast
      qed
      have st': "set bones' = set bones \<union> {a. \<exists>k\<le>Suc n. nth_parent parent bone k = Some a}"
        unfolding anc st b1 using bp0 bin by blast
      have other': "\<forall>r. r \<noteq> skelroot \<longrightarrow> d' r = d r"
        using other by (simp add: d1_def)
      show ?thesis
        apply (rule exI [of _ "Suc n"], rule exI [of _ bones], rule exI [of _ bones'])
        using db d'b bin np' nr' st' other' by blast
    qed
  qed
qed

lemma complete_bone_tree_Inr:
  assumes "complete_bone_tree parent d bone skelroot = Some (Inr d')"
  shows "\<exists>n bones bones'. d skelroot = Some bones \<and> d' skelroot = Some bones' \<and> bone \<in> set bones \<and>
       nth_parent parent bone (Suc n) = Some skelroot \<and>
       (\<forall>k. 1 \<le> k \<and> k \<le> n \<longrightarrow> nth_parent parent bone k \<noteq> Some skelroot) \<and>
       set bones' = set bones \<union> {a. \<exists>k\<le>n. nth_parent parent bone k = Some a} \<and>
       (\<forall>r. r \<noteq> skelroot \<longrightarrow> d' r = d r)"
  using complete_bone_tree_result [OF assms] by simp

lemma mark_skin_bones_grows:
  "mark_skin_bones parent d skelroot bs = Some (Inr d') \<Longrightarrow> d skelroot = Some bones0 \<Longrightarrow>
   \<exists>bones'. d' skelroot = Some bones' \<and> set bones0 \<subseteq> set bones' \<and>
     (skelroot \<notin> set bones0 \<and> Some skelroot \<notin> set bs \<longrightarrow> skelroot \<notin> set bones')"
proof (induction bs arbitrary: d bones0)
  case Nil
  then show ?case by simp
next
  case (Cons boneBlock rest)
  show ?case
  proof (cases boneBlock)
    case None
    with Cons.prems(1) have "mark_skin_bones parent d skelroot rest = Some (Inr d')" by simp
    from Cons.IH [OF this Cons.prems(2)] None show ?thesis by auto
  next
    case (Some b)
    define d1 where "d1 = (if b \<notin> set bones0 then d(skelroot \<mapsto> bones0 @ [b]) else d)"
    from Cons.prems Some have
      "(case complete_bone_tree parent d1 b skelroot of
          None \<Rightarrow> None
        | Some (Inl e) \<Rightarrow> Some (Inl e)
        | Some (Inr d2) \<Rightarrow> mark_skin_bones parent d2 skelroot rest) = Some (Inr d')"
      by (simp add: d1_def)
    then obtain d2 where
      c: "complete_bone_tree parent d1 b skelroot = Some (Inr d2)"
      and l: "mark_skin_bones parent d2 skelroot rest = Some (Inr d')"
      by (auto split: option.splits sum.splits)
    from complete_bone_tree_Inr [OF c] obtain n bones1 bones2 where
      d1b: "d1 skelroot = Some bones1" and d2b: "d2 skelroot = Some bones2"
      and nr: "\<forall>k. 1 \<le> k \<and> k \<le> n \<longrightarrow> nth_parent parent b k \<noteq> Some skelroot"
      and st: "set bones2 = set bones1 \<union> {a. \<exists>k\<le>n. nth_parent parent b k = Some a}"
      by (elim exE conjE)
    have b1: "set bones1 = insert b (set bones0)"
      using d1b Cons.prems(2) by (auto simp: d1_def split: if_splits)
    from Cons.IH [OF l d2b] obtain bones' where
      d'b: "d' skelroot = Some bones'" and sub: "set bones2 \<subseteq> set bones'"
      and nroot: "skelroot \<notin> set bones2 \<and> Some skelroot \<notin> set rest \<longrightarrow> skelroot \<notin> set bones'"
      by blast
    have "skelroot \<notin> set bones'" if h: "skelroot \<notin> set bones0" "Some skelroot \<notin> set (boneBlock # rest)"
    proof -
      from h Some have bne: "b \<noteq> skelroot" and r: "Some skelroot \<notin> set rest" by auto
      have "skelroot \<notin> {a. \<exists>k\<le>n. nth_parent parent b k = Some a}"
      proof
        assume "skelroot \<in> {a. \<exists>k\<le>n. nth_parent parent b k = Some a}"
        then obtain k where k: "k \<le> n" "nth_parent parent b k = Some skelroot" by blast
        show False
        proof (cases k)
          case 0
          with k bne show False by simp
        next
          case (Suc j)
          then have "1 \<le> k \<and> k \<le> n" using k by simp
          with nr k show False by blast
        qed
      qed
      then have "skelroot \<notin> set bones1 \<union> {a. \<exists>k\<le>n. nth_parent parent b k = Some a}"
        unfolding b1 using h(1) bne by (simp only: Un_iff insert_iff) blast
      then have "skelroot \<notin> set bones2" unfolding st .
      with nroot r show ?thesis by blast
    qed
    then have nr': "skelroot \<notin> set bones0 \<and> Some skelroot \<notin> set (boneBlock # rest) \<longrightarrow>
      skelroot \<notin> set bones'" by blast
    have "set bones0 \<subseteq> set bones1" using b1 by auto
    also have "\<dots> \<subseteq> set bones2" using st by auto
    also note sub
    finally have "set bones0 \<subseteq> set bones'" .
    with d'b nr' show ?thesis by simp
  qed
qed

lemma nth_parent_None_later:
  "nth_parent parent x k = None \<Longrightarrow> nth_parent parent x (k + m) = None"
proof (induction k arbitrary: x)
  case 0
  then show ?case by simp
next
  case (Suc k)
  then show ?case by (cases "parent x") auto
qed

lemma mark_skin_bones_ancestors:
  "mark_skin_bones parent d skelroot bs = Some (Inr d') \<Longrightarrow> Some b \<in> set bs \<Longrightarrow>
   \<exists>bones' n. d' skelroot = Some bones' \<and> nth_parent parent b (Suc n) = Some skelroot \<and>
     (\<forall>k\<le>n. \<exists>a. nth_parent parent b k = Some a \<and> a \<in> set bones')"
proof (induction bs arbitrary: d)
  case Nil
  then show ?case by simp
next
  case (Cons boneBlock rest)
  show ?case
  proof (cases boneBlock)
    case None
    with Cons.prems have "mark_skin_bones parent d skelroot rest = Some (Inr d')"
      and "Some b \<in> set rest" by simp_all
    then show ?thesis by (rule Cons.IH)
  next
    case (Some c)
    from Cons.prems(1) Some obtain bones0 where d0: "d skelroot = Some bones0"
      by (auto split: option.splits)
    define d1 where "d1 = (if c \<notin> set bones0 then d(skelroot \<mapsto> bones0 @ [c]) else d)"
    from Cons.prems(1) Some d0 have
      "(case complete_bone_tree parent d1 c skelroot of
          None \<Rightarrow> None
        | Some (Inl e) \<Rightarrow> Some (Inl e)
        | Some (Inr d2) \<Rightarrow> mark_skin_bones parent d2 skelroot rest) = Some (Inr d')"
      by (simp add: d1_def)
    then obtain d2 where
      cb: "complete_bone_tree parent d1 c skelroot = Some (Inr d2)"
      and l: "mark_skin_bones parent d2 skelroot rest = Some (Inr d')"
      by (auto split: option.splits sum.splits)
    show ?thesis
    proof (cases "b = c")
      case True
      from complete_bone_tree_Inr [OF cb] obtain n bones1 bones2 where
        d2b: "d2 skelroot = Some bones2"
        and np: "nth_parent parent c (Suc n) = Some skelroot"
        and st: "set bones2 = set bones1 \<union> {a. \<exists>k\<le>n. nth_parent parent c k = Some a}"
        by (elim exE conjE)
      from mark_skin_bones_grows [OF l d2b] obtain bones' where
        d'b: "d' skelroot = Some bones'" and sub: "set bones2 \<subseteq> set bones'"
        by (elim exE conjE)
      have anc: "\<forall>k\<le>n. \<exists>a. nth_parent parent c k = Some a \<and> a \<in> set bones'"
      proof (intro allI impI)
        fix k assume k: "k \<le> n"
        have "nth_parent parent c k \<noteq> None"
        proof
          assume "nth_parent parent c k = None"
          from nth_parent_None_later [OF this, of "Suc n - k"] k np show False by simp
        qed
        then obtain a where a: "nth_parent parent c k = Some a" by auto
        with k have "a \<in> {a. \<exists>k\<le>n. nth_parent parent c k = Some a}" by (simp only: mem_Collect_eq) (rule exI [of _ k], simp)
        then have "a \<in> set bones2" unfolding st by (rule UnI2)
        with sub have "a \<in> set bones'" by (rule subsetD)
        with a show "\<exists>a. nth_parent parent c k = Some a \<and> a \<in> set bones'" by simp
      qed
      with d'b np True show ?thesis by blast
    next
      case False
      with Cons.prems(2) Some have "Some b \<in> set rest" by simp
      with l show ?thesis by (rule Cons.IH)
    qed
  qed
qed

lemma mark_skin_bones_all_None:
  "mark_skin_bones parent d skelroot bs = Some (Inr d') \<Longrightarrow> d skelroot = None \<Longrightarrow> d' = d"
proof (induction bs)
  case Nil
  then show ?case by simp
next
  case (Cons x xs)
  then show ?case by (cases x) auto
qed

text \<open>
  C6, as stated: for the chain A (skeleton root) - B - C with a skin bound to C only, the
  bone set contains A, B and C. The list stored for the armature A is \<open>[C, B]\<close>: the
  walk stops at the block whose parent is the skeleton root, which is the key of
  \<open>dict_armatures\<close> and not one of its bones.
\<close>

theorem skeleton_root_not_in_bone_list:
  "mark_skin_instance ''EVERYTHING'' chain_ABC Map.empty 0 [Some 2] = Some (Inr [0 \<mapsto> [2, 1]]) \<and>
   (0::nat) \<notin> set [2, 1]"
  by (simp add: mark_skin_instance_def chain_ABC_def complete_bone_tree.simps)

text \<open>
  C6, amended: when the marking of a skin instance returns normally, every bound bone and
  every ancestor of a bound bone strictly below the skeleton root is in the bone list of
  that skeleton root, which the chain of parents reaches; the skeleton root itself is not
  added to the list (it is in it only if it was before, or if it is itself bound). For
  the chain A - B - C with only C bound the list is \<open>[C, B]\<close>, and the parent links are
  untouched: B's parent is A, C's parent is B.
\<close>

theorem mark_skin_instance_bone_tree:
  "(mark_skin_instance skeleton parent d skelroot skin_bones = Some (Inr d') \<longrightarrow>
      (\<forall>b. Some b \<in> set skin_bones \<longrightarrow>
         (\<exists>bones' n. d' skelroot = Some bones' \<and> nth_parent parent b (Suc n) = Some skelroot \<and>
            (\<forall>k\<le>n. \<exists>a. nth_parent parent b k = Some a \<and> a \<in> set bones'))) \<and>
      (skelroot \<notin> set (case d skelroot of None \<Rightarrow> [] | Some bones \<Rightarrow> bones) \<and>
       Some skelroot \<notin> set skin_bones \<longrightarrow>
         (\<forall>bones'. d' skelroot = Some bones' \<longrightarrow> skelroot \<notin> set bones'))) \<and>
   mark_skin_instance ''EVERYTHING'' chain_ABC Map.empty 0 [Some 2] = Some (Inr [0 \<mapsto> [2, 1]]) \<and>
   chain_ABC 1 = Some 0 \<and> chain_ABC 2 = Some 1"
proof (intro conjI impI)
  assume m: "mark_skin_instance skeleton parent d skelroot skin_bones = Some (Inr d')"
  define d0 where "d0 = (if skeleton = ''EVERYTHING'' \<and> d skelroot = None then d(skelroot \<mapsto> []) else d)"
  from m have l: "mark_skin_bones parent d0 skelroot skin_bones = Some (Inr d')"
    by (auto simp: mark_skin_instance_def d0_def split: if_splits)
  show "\<forall>b. Some b \<in> set skin_bones \<longrightarrow>
         (\<exists>bones' n. d' skelroot = Some bones' \<and> nth_parent parent b (Suc n) = Some skelroot \<and>
            (\<forall>k\<le>n. \<exists>a. nth_parent parent b k = Some a \<and> a \<in> set bones'))"
  proof (intro allI impI)
    fix b assume "Some b \<in> set skin_bones"
    with l show "\<exists>bones' n. d' skelroot = Some bones' \<and> nth_parent parent b (Suc n) = Some skelroot \<and>
            (\<forall>k\<le>n. \<exists>a. nth_parent parent b k = Some a \<and> a \<in> set bones')"
      by (rule mark_skin_bones_ancestors)
  qed
  show "\<forall>bones'. d' skelroot = Some bones' \<longrightarrow> skelroot \<notin> set bones'"
    if h: "skelroot \<notin> set (case d skelroot of None \<Rightarrow> [] | Some bones \<Rightarrow> bones) \<and>
       Some skelroot \<notin> set skin_bones"
  proof (cases "d0 skelroot")
    case None
    with l have "d' = d0" by (rule mark_skin_bones_all_None)
    with None show ?thesis by simp
  next
    case (Some bones0)
    have "skelroot \<notin> set bones0"
      using Some h by (auto simp: d0_def split: if_splits option.splits)
    moreover from mark_skin_bones_grows [OF l Some] obtain bones' where
      "d' skelroot = Some bones'"
      "skelroot \<notin> set bones0 \<and> Some skelroot \<notin> set skin_bones \<longrightarrow> skelroot \<notin> set bones'"
      by (elim exE conjE)
    ultimately show ?thesis using h by simp
  qed
next
  show "mark_skin_instance ''EVERYTHING'' chain_ABC Map.empty 0 [Some 2] = Some (Inr [0 \<mapsto> [2, 1]])"
    by (simp add: mark_skin_instance_def chain_ABC_def complete_bone_tree.simps)
next
  show "chain_ABC 1 = Some 0" by (simp add: chain_ABC_def)
next
  show "chain_ABC 2 = Some 1" by (simp add: chain_ABC_def)
qed

theorem mark_skin_instance_bone_tree_witness:
  "\<exists>bones' n. [0 \<mapsto> [2, 1]] (0::nat) = Some bones' \<and> nth_parent chain_ABC 2 (Suc n) = Some 0 \<and>
     (\<forall>k\<le>n. \<exists>a. nth_parent chain_ABC 2 k = Some a \<and> a \<in> set bones') \<and> 0 \<notin> set bones'"
proof -
  have m: "mark_skin_instance ''EVERYTHING'' chain_ABC Map.empty 0 [Some 2] = Some (Inr [0 \<mapsto> [2, 1]])"
    by (simp add: mark_skin_instance_def chain_ABC_def complete_bone_tree.simps)
  note t = mark_skin_instance_bone_tree
    [of "''EVERYTHING''" chain_ABC Map.empty 0 "[Some 2]" "[0 \<mapsto> [2, 1]]", THEN conjunct1, THEN mp, OF m,
     THEN conjunct1, THEN spec, of 2, THEN mp]
  have "Some (2::nat) \<in> set [Some 2]" by simp
  from t [OF this] obtain bones' n where b: "[0 \<mapsto> [2, 1]] (0::nat) = Some bones'"
    and r: "nth_parent chain_ABC 2 (Suc n) = Some 0"
    and k: "\<forall>k\<le>n. \<exists>a. nth_parent chain_ABC 2 k = Some a \<and> a \<in> set bones'"
    by (elim exE conjE)
  from b have "0 \<notin> set bones'" by auto
  with b r k show ?thesis by blast
qed

section \<open>Termination of the bone tree walk\<close>

lemma complete_bone_tree_terminates:
  "path_ends parent skelroot bone n \<Longrightarrow> \<exists>r. complete_bone_tree parent d bone skelroot = Some r"
proof (induction n arbitrary: bone d)
  case 0
  then show ?case by simp
next
  case (Suc n)
  show ?case
  proof (cases "d skelroot")
    case None
    then show ?thesis by (subst complete_bone_tree.simps) simp
  next
    case (Some bones)
    note db = this
    show ?thesis
    proof (cases "bone \<in> set bones")
      case False
      with db show ?thesis by (subst complete_bone_tree.simps) simp
    next
      case True
      note bin = this
      show ?thesis
      proof (cases "parent bone")
        case None
        with db bin show ?thesis by (subst complete_bone_tree.simps) simp
      next
        case (Some bp)
        show ?thesis
        proof (cases "bp = skelroot")
          case True
          with db bin Some show ?thesis by (subst complete_bone_tree.simps) simp
        next
          case False
          with Suc.prems Some have "path_ends parent skelroot bp n" by simp
          from Suc.IH [OF this] obtain r where
            "complete_bone_tree parent
               (if bp \<notin> set bones then d(skelroot \<mapsto> bones @ [bp]) else d) bp skelroot = Some r"
            by blast
          with db bin Some False show ?thesis by (subst complete_bone_tree.simps) simp
        qed
      qed
    qed
  qed
qed

lemma cyclic_chain_never_returns:
  assumes "complete_bone_tree parent d bone skelroot = Some y"
  shows "\<not> (parent = cyclic_chain \<and> skelroot = 0 \<and> (bone = 1 \<or> bone = 2) \<and>
            (\<exists>bones. d 0 = Some bones \<and> bone \<in> set bones))"
proof (rule complete_bone_tree.raw_induct [where P = "\<lambda>parent d bone skelroot y.
    \<not> (parent = cyclic_chain \<and> skelroot = 0 \<and> (bone = 1 \<or> bone = 2) \<and>
            (\<exists>bones. d 0 = Some bones \<and> bone \<in> set bones))", OF _ assms])
  fix cbt :: "(node \<Rightarrow> node option) \<Rightarrow> armatures \<Rightarrow> node \<Rightarrow> node \<Rightarrow> (error + armatures) option"
    and parent d bone skelroot y
  assume IH: "\<And>parent d bone skelroot y. cbt parent d bone skelroot = Some y \<Longrightarrow>
    \<not> (parent = cyclic_chain \<and> skelroot = 0 \<and> (bone = 1 \<or> bone = 2) \<and>
            (\<exists>bones. d 0 = Some bones \<and> bone \<in> set bones))"
  assume body: "(case d skelroot of
        None \<Rightarrow> Some (Inl AssertionError)
      | Some bones \<Rightarrow>
          if bone \<notin> set bones then Some (Inl AssertionError)
          else
            (case parent bone of
               None \<Rightarrow> Some (Inl AttributeError)
             | Some boneparent \<Rightarrow>
                 if boneparent \<noteq> skelroot then
                   cbt parent
                     (if boneparent \<notin> set bones then d(skelroot \<mapsto> bones @ [boneparent])
                      else d)
                     boneparent skelroot
                 else Some (Inr d))) = Some y"
  show "\<not> (parent = cyclic_chain \<and> skelroot = 0 \<and> (bone = 1 \<or> bone = 2) \<and>
            (\<exists>bones. d 0 = Some bones \<and> bone \<in> set bones))"
  proof
    assume c: "parent = cyclic_chain \<and> skelroot = 0 \<and> (bone = 1 \<or> bone = 2) \<and>
            (\<exists>bones. d 0 = Some bones \<and> bone \<in> set bones)"
    then obtain bones where db: "d 0 = Some bones" and bin: "bone \<in> set bones" by blast
    define bp where "bp = (if bone = 1 then 2 else (1::nat))"
    have pb: "parent bone = Some bp" using c by (auto simp: cyclic_chain_def bp_def)
    have bpn: "bp \<noteq> skelroot" "bp = 1 \<or> bp = 2" using c by (auto simp: bp_def)
    define d1 where "d1 = (if bp \<notin> set bones then d(skelroot \<mapsto> bones @ [bp]) else d)"
    have rec: "cbt parent d1 bp skelroot = Some y"
      using body c db bin pb bpn by (simp add: d1_def)
    have "\<exists>bones1. d1 0 = Some bones1 \<and> bp \<in> set bones1"
      using c db by (auto simp: d1_def)
    with IH [OF rec] c bpn show False by blast
  qed
qed

text \<open>
  C7, as stated: \<open>complete_bone_tree\<close> terminates on every input and rejects a cyclic
  parent chain. With blocks 1 and 2 each other's parent, skeleton root 0 and block 1 marked
  as a bone, the call neither returns a result nor raises: the recursion goes round the
  cycle without end, and nothing in the function looks for a cycle.
\<close>

theorem complete_bone_tree_cycle_unbounded:
  "complete_bone_tree cyclic_chain [0 \<mapsto> [1]] 1 0 = None"
proof (cases "complete_bone_tree cyclic_chain [0 \<mapsto> [1]] 1 0")
  case None
  then show ?thesis .
next
  case (Some y)
  from cyclic_chain_never_returns [OF Some] show ?thesis by simp
qed

text \<open>
  C7, amended: \<open>complete_bone_tree\<close> returns (a result or an error) whenever the chain
  of parents from the bone arrives at the skeleton root or at a block without a parent
  within finitely many steps, and each recursive call is made on a chain one step
  shorter. A cyclic chain is not detected.
\<close>

theorem complete_bone_tree_returns_on_ending_chain:
  "(path_ends parent skelroot bone n \<longrightarrow> (\<exists>r. complete_bone_tree parent d bone skelroot = Some r)) \<and>
   (path_ends parent skelroot bone (Suc n) \<and> parent bone = Some p \<and> p \<noteq> skelroot \<longrightarrow>
      path_ends parent skelroot p n)"
  using complete_bone_tree_terminates [of parent skelroot bone n d] by auto

theorem complete_bone_tree_returns_on_ending_chain_witness:
  "path_ends chain_ABC 0 2 2 \<and> (\<exists>r. complete_bone_tree chain_ABC [0 \<mapsto> [2]] 2 0 = Some r) \<and>
   path_ends chain_ABC 0 1 1"
  using complete_bone_tree_returns_on_ending_chain [of chain_ABC 0 2 2 "[0 \<mapsto> [2]]"]
    complete_bone_tree_returns_on_ending_chain [of chain_ABC 0 2 1 "[0 \<mapsto> [2]]" 1]
  by (simp add: chain_ABC_def eval_nat_numeral)


section \<open>Scale, rotation and translation of a matrix\<close>

text \<open>
  C5. The transform composed from the uniform scale 4, the identity rotation and the zero
  translation decomposes in the library into translation 0, rotation identity and scale
  \<open>(4, 4, 4)\<close>. \<open>decompose_srt\<close> returns the scale 2 and the matrix \<open>2 I\<close> for it: it
  takes the square root of the scale and multiplies the rotation by the result, so only a
  scale of 1 (or 0) comes back.
\<close>

theorem decompose_srt_scale_four:
  "decompose_srt (1 / 1000) ((0, 0, 0), identity3, (4, 4, 4)) =
     Inr ((2, ((2, 0, 0), (0, 2, 0), (0, 0, 2)), (0, 0, 0)), [])"
  by (simp add: decompose_srt_def identity3_def)

section \<open>Direction and roll of a bone matrix\<close>






















end
